theory Spec2Isabelle
  imports Complex_Main "HOL-Library.Char_ord" "HOL-Library.List_Lexorder"
begin

section \<open>Errors\<close>

text \<open>
  Every exception the modelled code can raise is a value of \<open>error\<close>; a function that
  may raise returns \<open>error + 'a\<close>, with \<open>Inl\<close> the exception.
\<close>

datatype error =
    KeyError
  | ValueError
  | RuntimeError
  | FileNotFoundError
  | FileExistsError
  | NotADirectoryError
  | IsADirectoryError
  | BadGzipFile
  | InvalidArgumentError
  | NotFoundError
  | DataLossError
  | FailedPreconditionError

section \<open>Dense arrays\<close>

text \<open>
  A TensorFlow tensor, a NumPy array and a PyTorch tensor are all modelled as a shape and
  the elements in row-major order. The float32 elements are modelled as real numbers:
  rounding is not part of the model.
\<close>

record tensor =
  shape :: "nat list"
  data :: "real list"

fun chunks :: "nat \<Rightarrow> nat \<Rightarrow> 'a list \<Rightarrow> 'a list list" where
  "chunks k 0 xs = []"
| "chunks k (Suc n) xs = take k xs # chunks k n (drop k xs)"

text \<open>
  \<open>slice_axis k a b t\<close> is the basic slice \<open>t[..., a:b, ...]\<close> along axis \<open>k\<close> (with
  \<open>0 \<le> a\<close>, \<open>0 \<le> b\<close>), the bounds clamped to the axis length as Python slicing does.
  The caller checks \<open>k < length (shape t)\<close>.
\<close>

definition slice_axis :: "nat \<Rightarrow> nat \<Rightarrow> nat \<Rightarrow> tensor \<Rightarrow> tensor" where
  "slice_axis k a b t =
     (let sh = shape t;
          outer = prod_list (take k sh);
          d = sh ! k;
          inner = prod_list (drop (Suc k) sh);
          lo = min a d;
          hi = max lo (min b d)
      in \<lparr>shape = sh[k := hi - lo],
          data = concat (map (\<lambda>r. take ((hi - lo) * inner) (drop (lo * inner) r))
                              (chunks (d * inner) outer (data t)))\<rparr>)"

text \<open>
  Concatenation along axis \<open>k\<close> (\<open>tf.concat(ts, axis=k)\<close>, \<open>torch.cat(ts, dim=k)\<close>):
  all operands have the axis and agree on every other dimension.
\<close>

definition concat_axis :: "nat \<Rightarrow> error \<Rightarrow> tensor list \<Rightarrow> error + tensor" where
  "concat_axis k err ts =
     (if ts = [] then Inl err
      else if list_ex (\<lambda>t. length (shape t) \<le> k) ts then Inl err
      else if list_ex (\<lambda>t. (shape t)[k := 0] \<noteq> (shape (hd ts))[k := 0]) ts then Inl err
      else
        (let sh = shape (hd ts);
             outer = prod_list (take k sh);
             inner = prod_list (drop (Suc k) sh)
         in Inr \<lparr>shape = sh[k := sum_list (map (\<lambda>t. shape t ! k) ts)],
                 data = concat (map (\<lambda>i. concat (map (\<lambda>t. chunks (shape t ! k * inner) outer (data t) ! i) ts))
                                    [0..<outer])\<rparr>))"

definition map_tensor :: "(real \<Rightarrow> real) \<Rightarrow> tensor \<Rightarrow> tensor" where
  "map_tensor f t = \<lparr>shape = shape t, data = map f (data t)\<rparr>"

subsection \<open>TensorFlow operations used by the converter\<close>

text \<open>
  \<open>tf.reshape(t, dims)\<close>: at most one dimension is \<open>-1\<close> and is inferred from the number
  of elements (0 when the tensor is empty and another dimension is 0); the elements keep
  their order.
\<close>

definition infer_shape :: "nat \<Rightarrow> int list \<Rightarrow> error + nat list" where
  "infer_shape n dims =
     (if list_ex (\<lambda>d. d < - 1) dims then Inl InvalidArgumentError
      else if 1 < length (filter (\<lambda>d. d = - 1) dims) then Inl InvalidArgumentError
      else if - 1 \<in> set dims then
        (let p = prod_list (map nat (filter (\<lambda>d. d \<noteq> - 1) dims))
         in if p = 0 then
              (if n = 0 then Inr (map (\<lambda>d. if d = - 1 then 0 else nat d) dims)
               else Inl InvalidArgumentError)
            else if n mod p \<noteq> 0 then Inl InvalidArgumentError
            else Inr (map (\<lambda>d. if d = - 1 then n div p else nat d) dims))
      else if prod_list (map nat dims) = n then Inr (map nat dims)
      else Inl InvalidArgumentError)"

definition tf_reshape :: "tensor \<Rightarrow> int list \<Rightarrow> error + tensor" where
  "tf_reshape t dims =
     (case infer_shape (prod_list (shape t)) dims of
        Inl e \<Rightarrow> Inl e
      | Inr sh \<Rightarrow> Inr \<lparr>shape = sh, data = data t\<rparr>)"

text \<open>The slice \<open>t[:, :, a:b]\<close>; it needs a tensor of rank 3 at least.\<close>

definition tf_slice_axis2 :: "tensor \<Rightarrow> nat \<Rightarrow> nat \<Rightarrow> error + tensor" where
  "tf_slice_axis2 t a b =
     (if length (shape t) < 3 then Inl InvalidArgumentError else Inr (slice_axis 2 a b t))"

definition tf_concat :: "tensor list \<Rightarrow> nat \<Rightarrow> error + tensor" where
  "tf_concat ts axis = concat_axis axis InvalidArgumentError ts"

definition tf_sin :: "tensor \<Rightarrow> tensor" where
  "tf_sin = map_tensor sin"

definition tf_cos :: "tensor \<Rightarrow> tensor" where
  "tf_cos = map_tensor cos"

subsection \<open>PyTorch operations used by the loader\<close>

text \<open>
  \<open>torch.split(t, n, dim=-1)\<close>: consecutive pieces of \<open>n\<close> entries of the last axis, the
  last piece shorter when \<open>n\<close> does not divide the axis length.
\<close>

definition torch_split :: "tensor \<Rightarrow> nat \<Rightarrow> error + tensor list" where
  "torch_split t n =
     (if shape t = [] then Inl RuntimeError
      else if n = 0 \<and> last (shape t) \<noteq> 0 then Inl RuntimeError
      else
        (let k = length (shape t) - 1;
             d = last (shape t);
             m = (if d = 0 then 1 else (d + n - 1) div n)
         in Inr (map (\<lambda>i. slice_axis k (i * n) (i * n + n) t) [0..<m])))"

text \<open>\<open>torch.cat(ts, dim=-1)\<close>.\<close>

definition torch_cat :: "tensor list \<Rightarrow> error + tensor" where
  "torch_cat ts =
     (if ts = [] \<or> shape (hd ts) = [] then Inl RuntimeError
      else concat_axis (length (shape (hd ts)) - 1) RuntimeError ts)"

definition torch_sin :: "tensor \<Rightarrow> tensor" where
  "torch_sin = map_tensor sin"

definition torch_cos :: "tensor \<Rightarrow> tensor" where
  "torch_cos = map_tensor cos"

text \<open>\<open>torch.stack(ts)\<close>: a new leading axis; the operands are not empty and have one shape.\<close>

definition torch_stack :: "tensor list \<Rightarrow> error + tensor" where
  "torch_stack ts =
     (if ts = [] then Inl RuntimeError
      else if list_ex (\<lambda>t. shape t \<noteq> shape (hd ts)) ts then Inl RuntimeError
      else Inr \<lparr>shape = length ts # shape (hd ts), data = concat (map data ts)\<rparr>)"

text \<open>
  \<open>t.permute(*dims)\<close>: \<open>dims\<close> is a permutation of the axes of \<open>t\<close>. Entry \<open>idx\<close> of the
  result is the entry of \<open>t\<close> whose index along axis \<open>dims ! j\<close> is \<open>idx ! j\<close>.
\<close>

fun strides :: "nat list \<Rightarrow> nat list" where
  "strides [] = []"
| "strides (d # ds) = prod_list ds # strides ds"

fun indices :: "nat list \<Rightarrow> nat list list" where
  "indices [] = [[]]"
| "indices (d # ds) = concat (map (\<lambda>i. map (\<lambda>idx. i # idx) (indices ds)) [0..<d])"

definition torch_permute :: "tensor \<Rightarrow> nat list \<Rightarrow> error + tensor" where
  "torch_permute t dims =
     (if length dims \<noteq> length (shape t) then Inl RuntimeError
      else if list_ex (\<lambda>d. length (shape t) \<le> d) dims then Inl RuntimeError
      else if length (remdups dims) \<noteq> length dims then Inl RuntimeError
      else
        (let sh = map (\<lambda>d. shape t ! d) dims;
             st = map (\<lambda>d. strides (shape t) ! d) dims
         in Inr \<lparr>shape = sh,
                 data = map (\<lambda>idx. data t ! sum_list (map2 (*) idx st)) (indices sh)\<rparr>))"

text \<open>Unpacking \<open>a, b = xs\<close> raises ValueError unless \<open>xs\<close> has exactly two items.\<close>

definition unpack2 :: "'a list \<Rightarrow> error + 'a \<times> 'a" where
  "unpack2 xs = (case xs of [a, b] \<Rightarrow> Inr (a, b) | _ \<Rightarrow> Inl ValueError)"

section \<open>The viewpoint transform\<close>

record DatasetInfo =
  basepath :: string
  train_size :: nat
  test_size :: nat
  frame_size :: nat
  sequence_size :: nat

definition NUM_CHANNELS :: nat where
  "NUM_CHANNELS = 3"

definition NUM_RAW_CAMERA_PARAMS :: nat where
  "NUM_RAW_CAMERA_PARAMS = 5"

text \<open>
  A parsed example (the result of \<open>tf.io.parse_single_example\<close>): the JPEG payloads of
  the frames, and the flat tensor of raw camera parameters.
\<close>

record example =
  ex_frames :: "string list"
  ex_cameras :: tensor

text \<open>The conversion-time transform, \<open>_preprocess_cameras\<close>.\<close>

definition preprocess_cameras :: "DatasetInfo \<Rightarrow> example \<Rightarrow> error + tensor" where
  "preprocess_cameras dataset_info ex =
     (case tf_reshape (ex_cameras ex)
             [- 1, int (sequence_size dataset_info), int NUM_RAW_CAMERA_PARAMS] of
        Inl e \<Rightarrow> Inl e
      | Inr raw_pose_params \<Rightarrow>
     (case tf_slice_axis2 raw_pose_params 0 3 of
        Inl e \<Rightarrow> Inl e
      | Inr pos \<Rightarrow>
     (case tf_slice_axis2 raw_pose_params 3 4 of
        Inl e \<Rightarrow> Inl e
      | Inr yaw \<Rightarrow>
     (case tf_slice_axis2 raw_pose_params 4 5 of
        Inl e \<Rightarrow> Inl e
      | Inr pitch \<Rightarrow>
          tf_concat [pos, tf_sin yaw, tf_cos yaw, tf_sin pitch, tf_cos pitch] 2))))"

text \<open>The load-time transform, \<open>transform_viewpoint\<close>.\<close>

definition transform_viewpoint :: "tensor \<Rightarrow> error + tensor" where
  "transform_viewpoint viewpoints =
     (case torch_split viewpoints 3 of
        Inl e \<Rightarrow> Inl e
      | Inr ps \<Rightarrow>
     (case unpack2 ps of
        Inl e \<Rightarrow> Inl e
      | Inr (pos, tmp) \<Rightarrow>
     (case torch_split tmp 1 of
        Inl e \<Rightarrow> Inl e
      | Inr qs \<Rightarrow>
     (case unpack2 qs of
        Inl e \<Rightarrow> Inl e
      | Inr (yaw, pitch) \<Rightarrow>
          torch_cat [pos, torch_cos yaw, torch_sin yaw, torch_cos pitch, torch_sin pitch]))))"

section \<open>The dataset catalogue\<close>

definition DATASETS :: "(string \<times> DatasetInfo) list" where
  "DATASETS =
     [(''jaco'',
        \<lparr>basepath = ''jaco'', train_size = 3600, test_size = 400,
         frame_size = 64, sequence_size = 11\<rparr>),
      (''mazes'',
        \<lparr>basepath = ''mazes'', train_size = 1080, test_size = 120,
         frame_size = 84, sequence_size = 300\<rparr>),
      (''rooms_free_camera_with_object_rotations'',
        \<lparr>basepath = ''rooms_free_camera_with_object_rotations'', train_size = 2034,
         test_size = 226, frame_size = 128, sequence_size = 10\<rparr>),
      (''rooms_ring_camera'',
        \<lparr>basepath = ''rooms_ring_camera'', train_size = 2160, test_size = 240,
         frame_size = 64, sequence_size = 10\<rparr>),
      (''rooms_free_camera_no_object_rotations'',
        \<lparr>basepath = ''rooms_free_camera_no_object_rotations'', train_size = 2160,
         test_size = 240, frame_size = 64, sequence_size = 10\<rparr>),
      (''shepard_metzler_5_parts'',
        \<lparr>basepath = ''shepard_metzler_5_parts'', train_size = 900, test_size = 100,
         frame_size = 64, sequence_size = 15\<rparr>),
      (''shepard_metzler_7_parts'',
        \<lparr>basepath = ''shepard_metzler_7_parts'', train_size = 900, test_size = 100,
         frame_size = 64, sequence_size = 15\<rparr>)]"

section \<open>Decoding one record\<close>

text \<open>
  A serialized \<open>tf.train.Example\<close> is a map from feature names to value lists; a byte
  string that is no such message is \<open>Undecodable\<close>.
\<close>

datatype feature = BytesList "string list" | FloatList "real list" | Int64List "int list"

datatype raw_data = Serialized "(string \<times> feature) list" | Undecodable

text \<open>
  \<open>tf.io.parse_single_example\<close> with the converter's feature map: \<open>frames\<close> is a
  \<open>FixedLenFeature\<close> of \<open>n_frames\<close> strings and \<open>cameras\<close> one of \<open>n_cameras\<close> floats.
  Neither has a default, and the number of values must be the declared one.
\<close>

definition parse_single_example :: "raw_data \<Rightarrow> nat \<Rightarrow> nat \<Rightarrow> error + example" where
  "parse_single_example raw n_frames n_cameras =
     (case raw of
        Undecodable \<Rightarrow> Inl InvalidArgumentError
      | Serialized fm \<Rightarrow>
          (case (map_of fm ''frames'', map_of fm ''cameras'') of
             (Some (BytesList bs), Some (FloatList cs)) \<Rightarrow>
               if length bs = n_frames \<and> length cs = n_cameras
               then Inr \<lparr>ex_frames = bs, ex_cameras = \<lparr>shape = [n_cameras], data = cs\<rparr>\<rparr>
               else Inl InvalidArgumentError
           | _ \<Rightarrow> Inl InvalidArgumentError))"

text \<open>
  The image functions of the TensorFlow library are parameters of the model:
  \<open>decode_jpeg\<close> gives the pixel array (height, width, channels; samples 0..255) of a
  JPEG payload, or raises; \<open>image_resize\<close> is \<open>tf.image.resize\<close> as the converter
  calls it.
\<close>

record tf_ops =
  decode_jpeg :: "string \<Rightarrow> error + tensor"
  image_resize :: "tensor \<Rightarrow> nat list \<Rightarrow> error + tensor"

text \<open>\<open>tf.image.convert_image_dtype\<close> from 8-bit samples to float: scaling into [0, 1].\<close>

definition convert_image_dtype :: "tensor \<Rightarrow> tensor" where
  "convert_image_dtype = map_tensor (\<lambda>v. v / 255)"

definition convert_frame_data :: "tf_ops \<Rightarrow> string \<Rightarrow> error + tensor" where
  "convert_frame_data ops jpeg_data =
     (case decode_jpeg ops jpeg_data of
        Inl e \<Rightarrow> Inl e
      | Inr decoded_frames \<Rightarrow> Inr (convert_image_dtype decoded_frames))"

text \<open>A loop that stops at the first exception.\<close>

fun map_err :: "('a \<Rightarrow> error + 'b) \<Rightarrow> 'a list \<Rightarrow> error + 'b list" where
  "map_err f [] = Inr []"
| "map_err f (x # xs) =
     (case f x of
        Inl e \<Rightarrow> Inl e
      | Inr y \<Rightarrow> (case map_err f xs of Inl e \<Rightarrow> Inl e | Inr ys \<Rightarrow> Inr (y # ys)))"

text \<open>
  \<open>tf.map_fn\<close> over the entries of a vector: the results are stacked along a new
  leading axis, so they must have one shape.
\<close>

definition tf_map_fn :: "('a \<Rightarrow> error + tensor) \<Rightarrow> 'a list \<Rightarrow> error + tensor" where
  "tf_map_fn f xs =
     (case map_err f xs of
        Inl e \<Rightarrow> Inl e
      | Inr ts \<Rightarrow>
          if ts = [] then Inr \<lparr>shape = [0], data = []\<rparr>
          else if list_ex (\<lambda>t. shape t \<noteq> shape (hd ts)) ts then Inl ValueError
          else Inr \<lparr>shape = length ts # shape (hd ts), data = concat (map data ts)\<rparr>)"

text \<open>
  \<open>_preprocess_frames\<close>. The first two steps of the source (\<open>tf.concat\<close> of the single
  string vector and its reshape to a vector) leave the list of payloads as it is;
  \<open>tf.stop_gradient\<close> is the identity on values.
\<close>

definition preprocess_frames :: "tf_ops \<Rightarrow> DatasetInfo \<Rightarrow> example \<Rightarrow> error + tensor" where
  "preprocess_frames ops dataset_info ex =
     (let dataset_image_dimensions =
            [int (frame_size dataset_info), int (frame_size dataset_info), int NUM_CHANNELS]
      in
      case tf_map_fn (convert_frame_data ops) (ex_frames ex) of
        Inl e \<Rightarrow> Inl e
      | Inr frames0 \<Rightarrow>
     (case tf_reshape frames0
             ([- 1, int (sequence_size dataset_info)] @ dataset_image_dimensions) of
        Inl e \<Rightarrow> Inl e
      | Inr frames1 \<Rightarrow>
          if frame_size dataset_info \<noteq> 64 then
            (case tf_reshape frames1 ([- 1] @ dataset_image_dimensions) of
               Inl e \<Rightarrow> Inl e
             | Inr frames2 \<Rightarrow>
            (case image_resize ops frames2 [64, 64] of
               Inl e \<Rightarrow> Inl e
             | Inr frames3 \<Rightarrow>
                 tf_reshape frames3
                   ([- 1, int (sequence_size dataset_info)] @ [64, 64, int NUM_CHANNELS])))
          else Inr frames1))"

record Scene =
  frames :: tensor
  cameras :: tensor

text \<open>\<open>convert_raw_to_gzip\<close>: one raw record to one \<open>Scene\<close>.\<close>

definition convert_raw_to_gzip :: "tf_ops \<Rightarrow> DatasetInfo \<Rightarrow> raw_data \<Rightarrow> error + Scene" where
  "convert_raw_to_gzip ops dataset_info raw =
     (case parse_single_example raw (sequence_size dataset_info)
             (sequence_size dataset_info * NUM_RAW_CAMERA_PARAMS) of
        Inl e \<Rightarrow> Inl e
      | Inr ex \<Rightarrow>
     (case preprocess_frames ops dataset_info ex of
        Inl e \<Rightarrow> Inl e
      | Inr fr \<Rightarrow>
     (case preprocess_cameras dataset_info ex of
        Inl e \<Rightarrow> Inl e
      | Inr cam \<Rightarrow> Inr \<lparr>frames = fr, cameras = cam\<rparr>)))"

text \<open>
  The condition of the specification on a record: it is a decodable example whose
  \<open>frames\<close> field holds \<open>sequence_size\<close> byte strings and whose \<open>cameras\<close> field holds
  \<open>sequence_size * 5\<close> floats.
\<close>

definition matches_declared_shapes :: "DatasetInfo \<Rightarrow> raw_data \<Rightarrow> bool" where
  "matches_declared_shapes dataset_info raw =
     (case raw of
        Undecodable \<Rightarrow> False
      | Serialized fm \<Rightarrow>
          (case map_of fm ''frames'' of
             Some (BytesList bs) \<Rightarrow> length bs = sequence_size dataset_info
           | _ \<Rightarrow> False) \<and>
          (case map_of fm ''cameras'' of
             Some (FloatList cs) \<Rightarrow> length cs = sequence_size dataset_info * 5
           | _ \<Rightarrow> False))"

section \<open>Strings and paths\<close>

text \<open>
  Python strings are modelled as \<open>string\<close>, restricted to ASCII. \<open>str_of_nat\<close> and
  \<open>str_of_int\<close> are \<open>str\<close> (and the \<open>{}\<close> of an f-string) on integers.
\<close>

definition digit_char :: "nat \<Rightarrow> char" where
  "digit_char d = ''0123456789'' ! d"

function str_of_nat :: "nat \<Rightarrow> string" where
  "str_of_nat n = (if n < 10 then [digit_char n] else str_of_nat (n div 10) @ [digit_char (n mod 10)])"
  by pat_completeness auto
termination
  by (relation "measure (\<lambda>n. n)") auto

declare str_of_nat.simps [simp del]

definition str_of_int :: "int \<Rightarrow> string" where
  "str_of_int i = (if i < 0 then CHR ''-'' # str_of_nat (nat (- i)) else str_of_nat (nat i))"

text \<open>
  \<open>int(s)\<close> on a string: surrounding whitespace is dropped, a sign may come first, and
  the digits may be grouped by single underscores.
\<close>

definition is_digit :: "char \<Rightarrow> bool" where
  "is_digit c = (c \<in> set ''0123456789'')"

definition digit_val :: "char \<Rightarrow> nat" where
  "digit_val c = of_char c - 48"

definition is_space :: "char \<Rightarrow> bool" where
  "is_space c = ((of_char c :: nat) \<in> set [9, 10, 11, 12, 13, 32])"

definition strip :: "string \<Rightarrow> string" where
  "strip s = rev (dropWhile is_space (rev (dropWhile is_space s)))"

fun grouped_digits :: "string \<Rightarrow> bool" where
  "grouped_digits [] = False"
| "grouped_digits [c] = is_digit c"
| "grouped_digits (c # d # cs) =
     (is_digit c \<and> (if d = CHR ''_'' then grouped_digits cs else grouped_digits (d # cs)))"

definition decimal_value :: "string \<Rightarrow> nat" where
  "decimal_value s = foldl (\<lambda>a c. 10 * a + digit_val c) 0 (filter (\<lambda>c. c \<noteq> CHR ''_'') s)"

definition py_int :: "string \<Rightarrow> error + int" where
  "py_int s =
     (case strip s of
        [] \<Rightarrow> Inl ValueError
      | c # cs \<Rightarrow>
          if c = CHR ''-'' then
            (if grouped_digits cs then Inr (- int (decimal_value cs)) else Inl ValueError)
          else if c = CHR ''+'' then
            (if grouped_digits cs then Inr (int (decimal_value cs)) else Inl ValueError)
          else
            (if grouped_digits (c # cs) then Inr (int (decimal_value (c # cs)))
             else Inl ValueError))"

text \<open>\<open>s.split(sep)\<close> for a separator of one character.\<close>

fun py_split :: "char \<Rightarrow> string \<Rightarrow> string list" where
  "py_split sep [] = [[]]"
| "py_split sep (c # cs) =
     (if c = sep then [] # py_split sep cs
      else (case py_split sep cs of r # rs \<Rightarrow> (c # r) # rs | [] \<Rightarrow> [[c]]))"

text \<open>
  A path is the list of its components below the working directory. \<open>path_parts\<close> reads
  a relative path string as \<open>pathlib\<close> does: empty components and \<open>.\<close> are dropped.
  A component \<open>..\<close> is kept as a name, as \<open>pathlib\<close> keeps it; the file system below
  does not resolve it (nor symbolic links), so the model follows the code only for paths
  without \<open>..\<close>, such as those of the modes \<open>train\<close> and \<open>test\<close>.
\<close>

type_synonym path = "string list"

definition path_parts :: "string \<Rightarrow> path" where
  "path_parts s = filter (\<lambda>c. c \<noteq> [] \<and> c \<noteq> ''.'') (py_split CHR ''/'' s)"

text \<open>\<open>Path.stem\<close>: the final component without its last suffix.\<close>

fun rfind :: "char \<Rightarrow> string \<Rightarrow> nat option" where
  "rfind c [] = None"
| "rfind c (x # xs) =
     (case rfind c xs of
        Some i \<Rightarrow> Some (Suc i)
      | None \<Rightarrow> if x = c then Some 0 else None)"

definition stem :: "path \<Rightarrow> string" where
  "stem p =
     (case p of
        [] \<Rightarrow> []
      | _ # _ \<Rightarrow>
          (let name = last p in
           case rfind CHR ''.'' name of
             None \<Rightarrow> name
           | Some i \<Rightarrow> if 0 < i \<and> i < length name - 1 then take i name else name))"

definition ends_with :: "string \<Rightarrow> string \<Rightarrow> bool" where
  "ends_with s suf = (length suf \<le> length s \<and> drop (length s - length suf) s = suf)"

section \<open>The file system\<close>

text \<open>
  The file system is an association list from paths to nodes; the first entry of a path
  is the current one. The working directory (the empty path) always exists.
\<close>

datatype content = TFRecords "raw_data list" | Shard "Scene list" | Bytes string

datatype node = Dir | File content

type_synonym filesystem = "(path \<times> node) list"

definition node_at :: "filesystem \<Rightarrow> path \<Rightarrow> node option" where
  "node_at fs p = (if p = [] then Some Dir else map_of fs p)"

definition children :: "filesystem \<Rightarrow> path \<Rightarrow> string list" where
  "children fs d = remdups (map last (filter (\<lambda>p. p \<noteq> [] \<and> butlast p = d) (map fst fs)))"

definition path_exists :: "filesystem \<Rightarrow> path \<Rightarrow> bool" where
  "path_exists fs p = (node_at fs p \<noteq> None)"

text \<open>\<open>Path.iterdir\<close>.\<close>

definition iterdir :: "filesystem \<Rightarrow> path \<Rightarrow> error + path list" where
  "iterdir fs d =
     (case node_at fs d of
        None \<Rightarrow> Inl FileNotFoundError
      | Some (File _) \<Rightarrow> Inl NotADirectoryError
      | Some Dir \<Rightarrow> Inr (map (\<lambda>n. d @ [n]) (children fs d)))"

text \<open>
  \<open>Path.glob("*" + suf)\<close>: the entries of the directory whose name ends in \<open>suf\<close>, in
  no particular order; nothing when the path is no directory.
\<close>

definition glob_suffix :: "filesystem \<Rightarrow> path \<Rightarrow> string \<Rightarrow> path list" where
  "glob_suffix fs d suf =
     (case node_at fs d of
        Some Dir \<Rightarrow> map (\<lambda>n. d @ [n]) (filter (\<lambda>n. ends_with n suf) (children fs d))
      | _ \<Rightarrow> [])"

text \<open>\<open>Path.mkdir(parents=True, exist_ok=True)\<close>, component by component.\<close>

fun mkdir_from :: "filesystem \<Rightarrow> path \<Rightarrow> string list \<Rightarrow> error + filesystem" where
  "mkdir_from fs pre [] = Inr fs"
| "mkdir_from fs pre (c # cs) =
     (case node_at fs (pre @ [c]) of
        Some Dir \<Rightarrow> mkdir_from fs (pre @ [c]) cs
      | Some (File _) \<Rightarrow> Inl (if cs = [] then FileExistsError else NotADirectoryError)
      | None \<Rightarrow> mkdir_from ((pre @ [c], Dir) # fs) (pre @ [c]) cs)"

definition mkdir_parents :: "filesystem \<Rightarrow> path \<Rightarrow> error + filesystem" where
  "mkdir_parents fs p = mkdir_from fs [] p"

text \<open>Reading a TFRecord file (\<open>tf.data.TFRecordDataset\<close>, when it is iterated).\<close>

definition read_tfrecords :: "filesystem \<Rightarrow> path \<Rightarrow> error + raw_data list" where
  "read_tfrecords fs p =
     (case node_at fs p of
        None \<Rightarrow> Inl NotFoundError
      | Some Dir \<Rightarrow> Inl FailedPreconditionError
      | Some (File (TFRecords rs)) \<Rightarrow> Inr rs
      | Some (File _) \<Rightarrow> Inl DataLossError)"

text \<open>\<open>Dataset.take(count)\<close>: a negative count takes everything.\<close>

definition tf_take :: "int \<Rightarrow> 'a list \<Rightarrow> 'a list" where
  "tf_take count xs = (if count < 0 then xs else take (nat count) xs)"

text \<open>\<open>gzip.open(p, "wb")\<close> followed by \<open>torch.save(scenes, f)\<close>.\<close>

definition save_shard :: "filesystem \<Rightarrow> path \<Rightarrow> Scene list \<Rightarrow> error + filesystem" where
  "save_shard fs p scenes =
     (case p of
        [] \<Rightarrow> Inl IsADirectoryError
      | _ # _ \<Rightarrow>
          (case node_at fs (butlast p) of
             None \<Rightarrow> Inl FileNotFoundError
           | Some (File _) \<Rightarrow> Inl NotADirectoryError
           | Some Dir \<Rightarrow>
               if node_at fs p = Some Dir then Inl IsADirectoryError
               else Inr ((p, File (Shard scenes)) # fs)))"

text \<open>\<open>gzip.open(p, "rb")\<close> followed by \<open>torch.load(f)\<close>.\<close>

definition load_shard :: "filesystem \<Rightarrow> path \<Rightarrow> error + Scene list" where
  "load_shard fs p =
     (case node_at fs p of
        None \<Rightarrow>
          (case node_at fs (butlast p) of
             Some (File _) \<Rightarrow> Inl NotADirectoryError
           | _ \<Rightarrow> Inl FileNotFoundError)
      | Some Dir \<Rightarrow> Inl IsADirectoryError
      | Some (File (Shard scenes)) \<Rightarrow> Inr scenes
      | Some (File _) \<Rightarrow> Inl BadGzipFile)"

section \<open>The shard converter\<close>

text \<open>The shard index of an input file: \<open>int(path.stem.split("-")[0])\<close>.\<close>

definition parse_base_name :: "path \<Rightarrow> error + int" where
  "parse_base_name p = py_int (case py_split CHR ''-'' (stem p) of r # _ \<Rightarrow> r | [] \<Rightarrow> [])"

text \<open>
  \<open>convert_record\<close>. The result is the exception raised, if any, and the file system the
  call leaves behind. A dataset that takes no record never opens its file.
\<close>

definition convert_record ::
  "tf_ops \<Rightarrow> path \<Rightarrow> string \<Rightarrow> path \<Rightarrow> int \<Rightarrow> filesystem \<Rightarrow> (error + unit) \<times> filesystem" where
  "convert_record ops p dataset_name save_dir batch_size fs =
     (case map_of DATASETS dataset_name of
        None \<Rightarrow> (Inl KeyError, fs)
      | Some dataset_info \<Rightarrow>
     (case (if batch_size = 0 then Inr [] else read_tfrecords fs p) of
        Inl e \<Rightarrow> (Inl e, fs)
      | Inr records \<Rightarrow>
     (case map_err (convert_raw_to_gzip ops dataset_info) (tf_take batch_size records) of
        Inl e \<Rightarrow> (Inl e, fs)
      | Inr scene_list \<Rightarrow>
     (case parse_base_name p of
        Inl e \<Rightarrow> (Inl e, fs)
      | Inr base_name \<Rightarrow>
     (case save_shard fs (save_dir @ [str_of_int base_name @ ''.pt.gz'']) scene_list of
        Inl e \<Rightarrow> (Inl e, fs)
      | Inr fs' \<Rightarrow> (Inr (), fs'))))))"

text \<open>The conversions of a list of shards, one after another, up to the first exception.\<close>

fun convert_records ::
  "tf_ops \<Rightarrow> path list \<Rightarrow> string \<Rightarrow> path \<Rightarrow> int \<Rightarrow> filesystem \<Rightarrow> (error + unit) \<times> filesystem" where
  "convert_records ops [] dataset_name save_dir batch_size fs = (Inr (), fs)"
| "convert_records ops (p # ps) dataset_name save_dir batch_size fs =
     (case convert_record ops p dataset_name save_dir batch_size fs of
        (Inl e, fs') \<Rightarrow> (Inl e, fs')
      | (Inr _, fs') \<Rightarrow> convert_records ops ps dataset_name save_dir batch_size fs')"

section \<open>The conversion driver\<close>

record args =
  arg_dataset :: string
  arg_mode :: string
  arg_first_n :: "int option"
  arg_batch_size :: int

text \<open>The slice \<open>xs[:n]\<close>.\<close>

definition py_slice_to :: "'a list \<Rightarrow> int \<Rightarrow> 'a list" where
  "py_slice_to xs n = (if 0 \<le> n then take (nat n) xs else take (length xs - nat (- n)) xs)"

definition tf_dir_of :: "args \<Rightarrow> path" where
  "tf_dir_of a = path_parts ''./data/'' @ path_parts (arg_dataset a @ ''/'' @ arg_mode a @ ''/'')"

definition torch_dir_of :: "args \<Rightarrow> path" where
  "torch_dir_of a =
     path_parts ''./data/'' @ path_parts (arg_dataset a @ ''_torch/'' @ arg_mode a @ ''/'')"

text \<open>
  \<open>main\<close>, up to the call of \<open>pool.map\<close>: the result is the exception raised, or the
  list of the \<open>convert_record\<close> invocations handed to the pool (path, dataset name,
  save directory, batch size), with the file system at that point. The pool runs the
  invocations in worker processes; their interleaving is not modelled.
\<close>

definition main :: "args \<Rightarrow> filesystem \<Rightarrow> (error + (path \<times> string \<times> path \<times> int) list) \<times> filesystem" where
  "main a fs =
     (case map_of DATASETS (arg_dataset a) of
        None \<Rightarrow> (Inl ValueError, fs)
      | Some _ \<Rightarrow>
     (case mkdir_parents fs (torch_dir_of a) of
        Inl e \<Rightarrow> (Inl e, fs)
      | Inr fs1 \<Rightarrow>
          if path_exists fs1 (tf_dir_of a) then
            (let record_list = sort (glob_suffix fs1 (tf_dir_of a) ''.tfrecord'');
                 record_list = (case arg_first_n a of
                                  None \<Rightarrow> record_list
                                | Some n \<Rightarrow> py_slice_to record_list n)
             in (Inr (map (\<lambda>p. (p, arg_dataset a, torch_dir_of a, arg_batch_size a)) record_list),
                 fs1))
          else (Inl FileNotFoundError, fs1)))"

text \<open>
  The shard files of a directory, as the specification describes the selection: the
  entries of the directory whose name ends in \<open>.tfrecord\<close>.
\<close>

definition shard_files :: "filesystem \<Rightarrow> path \<Rightarrow> path set" where
  "shard_files fs d =
     (if node_at fs d = Some Dir
      then {d @ [name] | name. path_exists fs (d @ [name]) \<and> ends_with name ''.tfrecord''}
      else {})"

section \<open>The scene loader\<close>

record SceneDataset =
  root_dir :: path

text \<open>\<open>SceneDataset.__len__\<close>.\<close>

definition len_dataset :: "filesystem \<Rightarrow> SceneDataset \<Rightarrow> error + nat" where
  "len_dataset fs self =
     (case iterdir fs (root_dir self) of Inl e \<Rightarrow> Inl e | Inr es \<Rightarrow> Inr (length es))"

text \<open>\<open>SceneDataset.__getitem__\<close>.\<close>

definition getitem :: "filesystem \<Rightarrow> SceneDataset \<Rightarrow> int \<Rightarrow> error + tensor \<times> tensor" where
  "getitem fs self index =
     (case load_shard fs (root_dir self @ [str_of_int index @ ''.pt.gz'']) of
        Inl e \<Rightarrow> Inl e
      | Inr dataset \<Rightarrow>
     (case torch_stack (map frames dataset) of
        Inl e \<Rightarrow> Inl e
      | Inr images0 \<Rightarrow>
     (case torch_stack (map cameras dataset) of
        Inl e \<Rightarrow> Inl e
      | Inr viewpoints0 \<Rightarrow>
     (case torch_permute images0 [0, 1, 4, 2, 3] of
        Inl e \<Rightarrow> Inl e
      | Inr images \<Rightarrow>
     (case transform_viewpoint viewpoints0 of
        Inl e \<Rightarrow> Inl e
      | Inr viewpoints \<Rightarrow> Inr (images, viewpoints))))))"

section \<open>The pose orders of the specification\<close>

text \<open>
  The two orders the specification names for one pose \<open>(x, y, z, yaw, pitch)\<close>:
  sine before cosine, and cosine before sine.
\<close>

definition sincos_pose :: "real list \<Rightarrow> real list" where
  "sincos_pose p = [p ! 0, p ! 1, p ! 2, sin (p ! 3), cos (p ! 3), sin (p ! 4), cos (p ! 4)]"

definition cossin_pose :: "real list \<Rightarrow> real list" where
  "cossin_pose p = [p ! 0, p ! 1, p ! 2, cos (p ! 3), sin (p ! 3), cos (p ! 4), sin (p ! 4)]"

section \<open>Arrays given by their rows\<close>

text \<open>
  The array of shape \<open>sh @ [w]\<close> whose rows along the last axis are \<open>g r\<close> for the
  rows \<open>r\<close> of \<open>rs\<close>; used to state what the slices and concatenations compute.
\<close>

definition row_tensor ::
  "nat list \<Rightarrow> real list list \<Rightarrow> (real list \<Rightarrow> real list) \<times> nat \<Rightarrow> tensor" where
  "row_tensor sh rs gw = \<lparr>shape = sh @ [snd gw], data = concat (map (fst gw) rs)\<rparr>"

section \<open>A sample shard\<close>

text \<open>
  A well-formed record of the dataset \<open>rooms_ring_camera\<close> (10 frames of 64 x 64 pixels):
  every frame decodes to a black image and every camera parameter is 0.
\<close>

definition black_image :: tensor where
  "black_image = \<lparr>shape = [64, 64, 3], data = replicate (64 * 64 * 3) 0\<rparr>"

definition sample_ops :: tf_ops where
  "sample_ops = \<lparr>decode_jpeg = (\<lambda>b. Inr black_image),
                 image_resize = (\<lambda>t size. Inl InvalidArgumentError)\<rparr>"

definition sample_record :: raw_data where
  "sample_record =
     Serialized [(''frames'', BytesList (replicate 10 ''jpeg'')),
                 (''cameras'', FloatList (replicate 50 0))]"

text \<open>The scene the converter makes of the sample record.\<close>

definition sample_scene :: Scene where
  "sample_scene =
     \<lparr>frames = \<lparr>shape = [1, 10, 64, 64, 3],
                data = concat (replicate 10 (replicate (64 * 64 * 3) 0))\<rparr>,
      cameras = \<lparr>shape = [1, 10, 7], data = concat (replicate 10 [0, 0, 0, 0, 1, 0, 1])\<rparr>\<rparr>"

text \<open>
  A malformed record: 49 camera parameters where the dataset declares 50.
\<close>

definition short_record :: raw_data where
  "short_record =
     Serialized [(''frames'', BytesList (replicate 10 ''jpeg'')),
                 (''cameras'', FloatList (replicate 49 0))]"

text \<open>
  A file system with one input shard \<open>in/name\<close> holding \<open>records\<close>, and an empty
  output directory \<open>out\<close>.
\<close>

definition shard_fs :: "string \<Rightarrow> raw_data list \<Rightarrow> filesystem" where
  "shard_fs name records =
     [([''in'', name], File (TFRecords records)), ([''in''], Dir), ([''out''], Dir)]"

text \<open>
  A shard in the layout the specification describes: one scene of 10 frames of shape
  (64, 64, 3) and 10 viewpoints of 7 components (position 0, yaw 0, pitch 0, sine
  before cosine).
\<close>

definition spec_scene :: Scene where
  "spec_scene = \<lparr>frames = \<lparr>shape = [10, 64, 64, 3], data = replicate (10 * 64 * 64 * 3) 0\<rparr>,
                 cameras = \<lparr>shape = [10, 7],
                            data = concat (replicate 10 [0, 0, 0, 0, 1, 0, 1])\<rparr>\<rparr>"

definition spec_fs :: filesystem where
  "spec_fs = [([''out'', ''1.pt.gz''], File (Shard [spec_scene])), ([''out''], Dir)]"

section \<open>Sample poses\<close>


definition pose_info :: DatasetInfo where
  "pose_info = \<lparr>basepath = ''poses'', train_size = 1, test_size = 1, frame_size = 64,
                 sequence_size = 2\<rparr>"

definition pose_example :: example where
  "pose_example =
     \<lparr>ex_frames = [], ex_cameras = \<lparr>shape = [10], data = [1, 2, 3, 4, 5, 6, 7, 8, 9, 10]\<rparr>\<rparr>"

definition pose_tensor :: tensor where
  "pose_tensor = \<lparr>shape = [2, 5], data = [1, 2, 3, 4, 5, 6, 7, 8, 9, 10]\<rparr>"

section \<open>The viewpoint transform on floating-point numbers\<close>

text \<open>
  The elementwise sine and cosine of TensorFlow and PyTorch compute on float32 numbers.
  In \<open>tf_sin\<close>, \<open>tf_cos\<close>, \<open>torch_sin\<close> and \<open>torch_cos\<close> above they are the exact real
  functions. Here they are parameters: \<open>preprocess_cameras_lib\<close> and
  \<open>transform_viewpoint_lib\<close> are \<open>_preprocess_cameras\<close> and \<open>transform_viewpoint\<close> with
  the sine and cosine of a library \<open>lib\<close>.
\<close>

record trig_lib =
  lib_sin :: "real \<Rightarrow> real"
  lib_cos :: "real \<Rightarrow> real"

definition preprocess_cameras_lib :: "trig_lib \<Rightarrow> DatasetInfo \<Rightarrow> example \<Rightarrow> error + tensor" where
  "preprocess_cameras_lib lib dataset_info ex =
     (case tf_reshape (ex_cameras ex)
             [- 1, int (sequence_size dataset_info), int NUM_RAW_CAMERA_PARAMS] of
        Inl e \<Rightarrow> Inl e
      | Inr raw_pose_params \<Rightarrow>
     (case tf_slice_axis2 raw_pose_params 0 3 of
        Inl e \<Rightarrow> Inl e
      | Inr pos \<Rightarrow>
     (case tf_slice_axis2 raw_pose_params 3 4 of
        Inl e \<Rightarrow> Inl e
      | Inr yaw \<Rightarrow>
     (case tf_slice_axis2 raw_pose_params 4 5 of
        Inl e \<Rightarrow> Inl e
      | Inr pitch \<Rightarrow>
          tf_concat [pos, map_tensor (lib_sin lib) yaw, map_tensor (lib_cos lib) yaw,
                     map_tensor (lib_sin lib) pitch, map_tensor (lib_cos lib) pitch] 2))))"

definition transform_viewpoint_lib :: "trig_lib \<Rightarrow> tensor \<Rightarrow> error + tensor" where
  "transform_viewpoint_lib lib viewpoints =
     (case torch_split viewpoints 3 of
        Inl e \<Rightarrow> Inl e
      | Inr ps \<Rightarrow>
     (case unpack2 ps of
        Inl e \<Rightarrow> Inl e
      | Inr (pos, tmp) \<Rightarrow>
     (case torch_split tmp 1 of
        Inl e \<Rightarrow> Inl e
      | Inr qs \<Rightarrow>
     (case unpack2 qs of
        Inl e \<Rightarrow> Inl e
      | Inr (yaw, pitch) \<Rightarrow>
          torch_cat [pos, map_tensor (lib_cos lib) yaw, map_tensor (lib_sin lib) yaw,
                     map_tensor (lib_cos lib) pitch, map_tensor (lib_sin lib) pitch]))))"

text \<open>The library of the exact functions.\<close>

definition exact_lib :: trig_lib where
  "exact_lib = \<lparr>lib_sin = sin, lib_cos = cos\<rparr>"









section \<open>A sample dataset directory\<close>

text \<open>
  The training directory of \<open>jaco\<close> with two shard files and one other file, and a
  driver call that selects the first shard file.
\<close>

definition driver_args :: args where
  "driver_args = \<lparr>arg_dataset = ''jaco'', arg_mode = ''train'', arg_first_n = Some 1,
                   arg_batch_size = 16\<rparr>"

definition driver_fs :: filesystem where
  "driver_fs =
     [([''data'', ''jaco'', ''train'', ''2-of-2.tfrecord''], File (TFRecords [])),
      ([''data'', ''jaco'', ''train'', ''1-of-2.tfrecord''], File (TFRecords [])),
      ([''data'', ''jaco'', ''train'', ''notes.txt''], File (Bytes ''x'')),
      ([''data'', ''jaco'', ''train''], Dir),
      ([''data'', ''jaco''], Dir),
      ([''data''], Dir)]"

definition driver_fs1 :: filesystem where
  "driver_fs1 =
     ([''data'', ''jaco_torch'', ''train''], Dir) # ([''data'', ''jaco_torch''], Dir) # driver_fs"


section \<open>Rows of slices and concatenations\<close>

lemma length_chunks [simp]: "length (chunks k n xs) = n"
  by (induction n arbitrary: xs) auto

lemma chunks_concat:
  "list_all (\<lambda>r. length r = k) rs \<Longrightarrow> chunks k (length rs) (concat rs) = rs"
  by (induction rs) auto

lemma chunks_row_length:
  "length xs = n * k \<Longrightarrow> list_all (\<lambda>r. length r = k) (chunks k n xs)"
  by (induction n arbitrary: xs) auto

lemma concat_chunks:
  "length xs = n * k \<Longrightarrow> concat (chunks k n xs) = xs"
  by (induction n arbitrary: xs) auto

lemma slice_last_rows:
  assumes sh: "shape t = sh @ [d]" and dt: "data t = concat rs" and len: "length rs = prod_list sh"
    and rows: "list_all (\<lambda>r. length r = d) rs"
  shows "slice_axis (length sh) a b t =
     \<lparr>shape = sh @ [max (min a d) (min b d) - min a d],
      data = concat (map (\<lambda>r. take (max (min a d) (min b d) - min a d) (drop (min a d) r)) rs)\<rparr>"
proof -
  have 1: "take (length sh) (shape t) = sh" by (simp add: sh)
  have 2: "shape t ! length sh = d" by (simp add: sh)
  have 3: "drop (Suc (length sh)) (shape t) = []" by (simp add: sh)
  have 4: "\<And>v. (shape t)[length sh := v] = sh @ [v]" by (simp add: sh)
  have 5: "chunks d (prod_list sh) (data t) = rs"
    using chunks_concat[OF rows] by (simp add: dt len)
  have "slice_axis (length sh) a b t = 
     \<lparr>shape = (shape t)[length sh := max (min a d) (min b d) - min a d],
          data = concat (map (\<lambda>r. take ((max (min a d) (min b d) - min a d) * 1) (drop (min a d * 1) r))
                              (chunks (d * 1) (prod_list sh) (data t)))\<rparr>"
    unfolding slice_axis_def Let_def 1 2 3 prod_list.Nil ..
  also have "\<dots> = \<lparr>shape = sh @ [max (min a d) (min b d) - min a d],
      data = concat (map (\<lambda>r. take (max (min a d) (min b d) - min a d) (drop (min a d) r)) rs)\<rparr>"
    unfolding 4 mult_1_right 5 ..
  finally show ?thesis .
qed

lemma map_nth_rows: "map (\<lambda>i. F (rs ! i)) [0..<length rs] = map F rs"
  by (rule nth_equalityI) simp_all

lemma concat_last_rows:
  assumes ne: "gws \<noteq> []" and len: "length rs = prod_list sh"
    and wd: "list_all (\<lambda>gw. list_all (\<lambda>r. length (fst gw r) = snd gw) rs) gws"
  shows "concat_axis (length sh) err (map (row_tensor sh rs) gws) =
         Inr \<lparr>shape = sh @ [sum_list (map snd gws)],
              data = concat (map (\<lambda>r. concat (map (\<lambda>gw. fst gw r) gws)) rs)\<rparr>"
proof -
  let ?ts = "map (row_tensor sh rs) gws"
  have ne': "?ts \<noteq> []" using ne by simp
  have hd_sh: "shape (hd ?ts) = sh @ [snd (hd gws)]"
    using ne by (cases gws) (simp_all add: row_tensor_def)
  have rank: "\<not> list_ex (\<lambda>t. length (shape t) \<le> length sh) ?ts"
    by (simp add: list_ex_iff row_tensor_def)
  have same: "\<not> list_ex (\<lambda>t. (shape t)[length sh := 0] \<noteq> (shape (hd ?ts))[length sh := 0]) ?ts"
    unfolding hd_sh by (simp add: list_ex_iff row_tensor_def)
  have hd_take: "take (length sh) (shape (hd ?ts)) = sh" by (simp add: hd_sh)
  have hd_drop: "drop (Suc (length sh)) (shape (hd ?ts)) = []" by (simp add: hd_sh)
  have hd_upd: "\<And>v. (shape (hd ?ts))[length sh := v] = sh @ [v]" by (simp add: hd_sh)
  have widths: "map (\<lambda>t. shape t ! length sh) ?ts = map snd gws"
    by (simp add: row_tensor_def)
  have cell: "chunks (shape (row_tensor sh rs gw) ! length sh * 1) (prod_list sh)
                 (data (row_tensor sh rs gw)) ! i = fst gw (rs ! i)"
    if "gw \<in> set gws" and "i < length rs" for gw i
  proof -
    have "list_all (\<lambda>r. length (fst gw r) = snd gw) rs"
      using wd that(1) by (simp add: list_all_iff)
    then have "list_all (\<lambda>r. length r = snd gw) (map (fst gw) rs)"
      by (simp add: list_all_iff)
    from chunks_concat[OF this]
    have "chunks (snd gw) (prod_list sh) (concat (map (fst gw) rs)) = map (fst gw) rs"
      by (simp add: len)
    then show ?thesis using that(2) by (simp add: row_tensor_def)
  qed
  have row: "concat (map (\<lambda>t. chunks (shape t ! length sh * 1) (prod_list sh) (data t) ! i) ?ts)
               = concat (map (\<lambda>gw. fst gw (rs ! i)) gws)"
    if "i < length rs" for i
  proof -
    have "map (\<lambda>t. chunks (shape t ! length sh * 1) (prod_list sh) (data t) ! i) ?ts
            = map (\<lambda>gw. fst gw (rs ! i)) gws"
      unfolding map_map comp_def by (rule map_cong[OF refl]) (rule cell[OF _ that])
    then show ?thesis by (rule arg_cong)
  qed
  have rows: "map (\<lambda>i. concat (map (\<lambda>t. chunks (shape t ! length sh * 1) (prod_list sh) (data t) ! i) ?ts))
                [0..<prod_list sh]
             = map (\<lambda>r. concat (map (\<lambda>gw. fst gw r) gws)) rs"
  proof -
    have "map (\<lambda>i. concat (map (\<lambda>t. chunks (shape t ! length sh * 1) (prod_list sh) (data t) ! i) ?ts))
                [0..<prod_list sh]
          = map (\<lambda>i. concat (map (\<lambda>gw. fst gw (rs ! i)) gws)) [0..<length rs]"
    proof (unfold len, rule map_cong[OF refl])
      fix i assume "i \<in> set [0..<prod_list sh]"
      then have "i < length rs" by (simp add: len)
      from row[OF this]
      show "concat (map (\<lambda>t. chunks (shape t ! length sh * 1) (prod_list sh) (data t) ! i) ?ts)
               = concat (map (\<lambda>gw. fst gw (rs ! i)) gws)" .
    qed
    also have "\<dots> = map (\<lambda>r. concat (map (\<lambda>gw. fst gw r) gws)) rs"
      by (rule map_nth_rows[of "\<lambda>r. concat (map (\<lambda>gw. fst gw r) gws)"])
    finally show ?thesis .
  qed
  show ?thesis
    unfolding concat_axis_def Let_def
    using ne' rank same by (simp only: if_False hd_take hd_drop hd_upd widths prod_list.Nil rows)
qed

lemma length5_cases:
  assumes "length (r :: 'a list) = 5"
  obtains a b c d e where "r = [a, b, c, d, e]"
  using assms by (auto simp: length_Suc_conv eval_nat_numeral)

lemma map_tensor_row:
  "map_tensor f (row_tensor sh rs (g, w)) = row_tensor sh rs (\<lambda>r. map f (g r), w)"
  by (simp add: map_tensor_def row_tensor_def map_concat comp_def)

lemma slice_row_tensor:
  assumes len: "length rs = prod_list sh" and rows: "list_all (\<lambda>r. length (g r) = d) rs"
  shows "slice_axis (length sh) a b (row_tensor sh rs (g, d)) =
     row_tensor sh rs (\<lambda>r. take (max (min a d) (min b d) - min a d) (drop (min a d) (g r)),
                       max (min a d) (min b d) - min a d)"
proof -
  have "slice_axis (length sh) a b (row_tensor sh rs (g, d)) =
     \<lparr>shape = sh @ [max (min a d) (min b d) - min a d],
      data = concat (map (\<lambda>r. take (max (min a d) (min b d) - min a d) (drop (min a d) r)) (map g rs))\<rparr>"
    by (rule slice_last_rows) (use len rows in \<open>simp_all add: row_tensor_def list_all_iff\<close>)
  then show ?thesis by (simp add: row_tensor_def comp_def)
qed

lemma infer_shape_cameras:
  "0 < n \<Longrightarrow> infer_shape (n * 5) [- 1, int n, 5] = Inr [1, n, 5]"
  by (simp add: infer_shape_def)

lemma preprocess_cameras_rows:
  assumes seq: "0 < sequence_size info"
    and sh: "shape (ex_cameras ex) = [sequence_size info * 5]"
    and len: "length (data (ex_cameras ex)) = sequence_size info * 5"
  shows "preprocess_cameras info ex =
     Inr \<lparr>shape = [1, sequence_size info, 7],
          data = concat (map sincos_pose (chunks 5 (sequence_size info) (data (ex_cameras ex))))\<rparr>"
proof -
  let ?n = "sequence_size info"
  let ?rs = "chunks 5 ?n (data (ex_cameras ex))"
  let ?sh = "[1, ?n]"
  let ?id = "\<lambda>r :: real list. r"
  have rows: "list_all (\<lambda>r. length r = 5) ?rs"
    using chunks_row_length[of "data (ex_cameras ex)" ?n 5] len by simp
  have lrs: "length ?rs = prod_list ?sh" by simp
  have raw: "tf_reshape (ex_cameras ex) [- 1, int ?n, int NUM_RAW_CAMERA_PARAMS]
               = Inr (row_tensor ?sh ?rs (?id, 5))"
    using infer_shape_cameras[OF seq] concat_chunks[of "data (ex_cameras ex)" ?n 5] len
    by (simp add: tf_reshape_def sh NUM_RAW_CAMERA_PARAMS_def row_tensor_def)
  have sl: "tf_slice_axis2 (row_tensor ?sh ?rs (?id, 5)) a b =
      Inr (row_tensor ?sh ?rs (\<lambda>r. take (max (min a 5) (min b 5) - min a 5) (drop (min a 5) r),
                       max (min a 5) (min b 5) - min a 5))" for a b
    using slice_row_tensor[OF lrs, of ?id 5 a b] rows
    by (simp add: tf_slice_axis2_def row_tensor_def numeral_2_eq_2)
  let ?raw = "row_tensor ?sh ?rs (?id, 5)"
  let ?pos = "(\<lambda>r. take 3 r, 3) :: (real list \<Rightarrow> real list) \<times> nat"
  let ?yaw = "(\<lambda>r. take 1 (drop 3 r), 1) :: (real list \<Rightarrow> real list) \<times> nat"
  let ?pitch = "(\<lambda>r. take 1 (drop 4 r), 1) :: (real list \<Rightarrow> real list) \<times> nat"
  have pos: "tf_slice_axis2 ?raw 0 3 = Inr (row_tensor ?sh ?rs ?pos)"
    using sl[of 0 3] by simp
  have yaw: "tf_slice_axis2 ?raw 3 4 = Inr (row_tensor ?sh ?rs ?yaw)"
    using sl[of 3 4] by simp
  have pitch: "tf_slice_axis2 ?raw 4 5 = Inr (row_tensor ?sh ?rs ?pitch)"
    using sl[of 4 5] by simp
  let ?gws = "[?pos, (\<lambda>r. map sin (take 1 (drop 3 r)), 1),
               (\<lambda>r. map cos (take 1 (drop 3 r)), 1), (\<lambda>r. map sin (take 1 (drop 4 r)), 1),
               (\<lambda>r. map cos (take 1 (drop 4 r)), 1)]"
  have wd: "list_all (\<lambda>gw. list_all (\<lambda>r. length (fst gw r) = snd gw) ?rs) ?gws"
    using rows by (simp add: list_all_iff)
  have pose: "concat (map (\<lambda>gw. fst gw r) ?gws) = sincos_pose r" if "r \<in> set ?rs" for r
  proof -
    from that rows have "length r = 5" by (simp add: list_all_iff)
    then obtain a b c d e where "r = [a, b, c, d, e]" by (rule length5_cases)
    then show ?thesis by (simp add: sincos_pose_def)
  qed
  have dat: "map (\<lambda>r. concat (map (\<lambda>gw. fst gw r) ?gws)) ?rs = map sincos_pose ?rs"
    by (rule map_cong[OF refl]) (rule pose)
  have "tf_concat (map (row_tensor ?sh ?rs) ?gws) 2 =
         Inr \<lparr>shape = ?sh @ [sum_list (map snd ?gws)],
              data = concat (map (\<lambda>r. concat (map (\<lambda>gw. fst gw r) ?gws)) ?rs)\<rparr>"
    unfolding tf_concat_def
    using concat_last_rows[of ?gws ?rs ?sh InvalidArgumentError, OF _ lrs wd]
    by (simp add: numeral_2_eq_2)
  then have cat: "tf_concat (map (row_tensor ?sh ?rs) ?gws) 2 =
         Inr \<lparr>shape = [1, ?n, 7], data = concat (map sincos_pose ?rs)\<rparr>"
    unfolding dat by simp
  show ?thesis
    unfolding preprocess_cameras_def raw sum.case pos yaw pitch tf_sin_def tf_cos_def map_tensor_row
    using cat unfolding list.map .
qed

lemma torch_split_row:
  assumes len: "length rs = prod_list sh" and rows: "list_all (\<lambda>r. length (g r) = d) rs"
    and n: "0 < n"
  shows "torch_split (row_tensor sh rs (g, d)) n =
     Inr (map (\<lambda>i. row_tensor sh rs
                 (\<lambda>r. take (max (min (i * n) d) (min (i * n + n) d) - min (i * n) d)
                          (drop (min (i * n) d) (g r)),
                  max (min (i * n) d) (min (i * n + n) d) - min (i * n) d))
            [0..<(if d = 0 then 1 else (d + n - 1) div n)])"
proof -
  have 1: "shape (row_tensor sh rs (g, d)) \<noteq> []"
    and 2: "last (shape (row_tensor sh rs (g, d))) = d"
    and 3: "length (shape (row_tensor sh rs (g, d))) - 1 = length sh"
    by (simp_all add: row_tensor_def)
  show ?thesis
    unfolding torch_split_def Let_def 2 3
    using 1 n by (simp add: slice_row_tensor[OF len rows])
qed

lemma torch_cat_rows:
  assumes ne: "gws \<noteq> []" and len: "length rs = prod_list sh"
    and wd: "list_all (\<lambda>gw. list_all (\<lambda>r. length (fst gw r) = snd gw) rs) gws"
  shows "torch_cat (map (row_tensor sh rs) gws) =
         Inr \<lparr>shape = sh @ [sum_list (map snd gws)],
              data = concat (map (\<lambda>r. concat (map (\<lambda>gw. fst gw r) gws)) rs)\<rparr>"
proof -
  have hd_sh: "shape (hd (map (row_tensor sh rs) gws)) = sh @ [snd (hd gws)]"
    using ne by (cases gws) (simp_all add: row_tensor_def)
  show ?thesis
    unfolding torch_cat_def hd_sh
    using ne concat_last_rows[OF ne len wd, of RuntimeError] by simp
qed

lemma transform_viewpoint_rows:
  assumes sh: "shape t = sh @ [5]" and len: "length (data t) = prod_list sh * 5"
  shows "transform_viewpoint t =
     Inr \<lparr>shape = sh @ [7],
          data = concat (map cossin_pose (chunks 5 (prod_list sh) (data t)))\<rparr>"
proof -
  let ?rs = "chunks 5 (prod_list sh) (data t)"
  let ?id = "\<lambda>r :: real list. r"
  have rows: "list_all (\<lambda>r. length r = 5) ?rs"
    using chunks_row_length[of "data t" "prod_list sh" 5] len by simp
  have lrs: "length ?rs = prod_list sh" by simp
  have t: "t = row_tensor sh ?rs (?id, 5)"
    using concat_chunks[of "data t" "prod_list sh" 5] len sh by (simp add: row_tensor_def)
  let ?pos = "(\<lambda>r. take 3 r, 3) :: (real list \<Rightarrow> real list) \<times> nat"
  let ?tmp = "(\<lambda>r. take 2 (drop 3 r), 2) :: (real list \<Rightarrow> real list) \<times> nat"
  let ?yaw = "(\<lambda>r. take 1 (take 2 (drop 3 r)), 1) :: (real list \<Rightarrow> real list) \<times> nat"
  let ?pitch = "(\<lambda>r. take 1 (drop 1 (take 2 (drop 3 r))), 1) :: (real list \<Rightarrow> real list) \<times> nat"
  have up: "[0..<2] = [0, 1]" by (simp add: upt_rec)
  have s1: "torch_split (row_tensor sh ?rs (?id, 5)) 3 =
              Inr [row_tensor sh ?rs ?pos, row_tensor sh ?rs ?tmp]"
    using torch_split_row[OF lrs, of ?id 5 3] rows by (simp add: up)
  have rows2: "list_all (\<lambda>r. length (fst ?tmp r) = 2) ?rs"
    using rows by (simp add: list_all_iff)
  have s2: "torch_split (row_tensor sh ?rs ?tmp) 1 =
              Inr [row_tensor sh ?rs ?yaw, row_tensor sh ?rs ?pitch]"
    using torch_split_row[OF lrs, of "fst ?tmp" 2 1] rows2 by (simp add: up)
  let ?gws = "[?pos, (\<lambda>r. map cos (fst ?yaw r), 1), (\<lambda>r. map sin (fst ?yaw r), 1),
               (\<lambda>r. map cos (fst ?pitch r), 1), (\<lambda>r. map sin (fst ?pitch r), 1)]"
  have wd: "list_all (\<lambda>gw. list_all (\<lambda>r. length (fst gw r) = snd gw) ?rs) ?gws"
    using rows by (simp add: list_all_iff)
  have pose: "concat (map (\<lambda>gw. fst gw r) ?gws) = cossin_pose r" if "r \<in> set ?rs" for r
  proof -
    from that rows have "length r = 5" by (simp add: list_all_iff)
    then obtain a b c d e where "r = [a, b, c, d, e]" by (rule length5_cases)
    then show ?thesis by (simp add: cossin_pose_def)
  qed
  have dat: "map (\<lambda>r. concat (map (\<lambda>gw. fst gw r) ?gws)) ?rs = map cossin_pose ?rs"
    by (rule map_cong[OF refl]) (rule pose)
  have "torch_cat (map (row_tensor sh ?rs) ?gws) =
         Inr \<lparr>shape = sh @ [sum_list (map snd ?gws)],
              data = concat (map (\<lambda>r. concat (map (\<lambda>gw. fst gw r) ?gws)) ?rs)\<rparr>"
    by (rule torch_cat_rows[OF _ lrs wd]) simp
  then have cat: "torch_cat (map (row_tensor sh ?rs) ?gws) =
         Inr \<lparr>shape = sh @ [7], data = concat (map cossin_pose ?rs)\<rparr>"
    unfolding dat by simp
  have "transform_viewpoint (row_tensor sh ?rs (?id, 5)) =
         Inr \<lparr>shape = sh @ [7], data = concat (map cossin_pose ?rs)\<rparr>"
    unfolding transform_viewpoint_def s1 sum.case unpack2_def list.case prod.case s2
      torch_sin_def torch_cos_def map_tensor_row
    using cat unfolding list.map fst_conv .
  then show ?thesis using t by simp
qed


subsection \<open>Poses\<close>

lemma chunks_2: "chunks k 2 xs = [take k xs, take k (drop k xs)]"
  by (simp add: numeral_2_eq_2)

section \<open>Numbers as strings and shard names\<close>

lemma digit_cases:
  assumes "d < (10::nat)"
  obtains "d = 0" | "d = 1" | "d = 2" | "d = 3" | "d = 4" | "d = 5" | "d = 6" | "d = 7"
    | "d = 8" | "d = 9"
proof -
  from assms have "d = 0 \<or> d = 1 \<or> d = 2 \<or> d = 3 \<or> d = 4 \<or> d = 5 \<or> d = 6 \<or> d = 7
      \<or> d = 8 \<or> d = 9"
    by arith
  then show thesis using that by blast
qed

lemma digit_char_props:
  assumes "d < 10"
  shows "is_digit (digit_char d)" and "digit_val (digit_char d) = d"
    and "digit_char d \<noteq> CHR ''_''" and "\<not> is_space (digit_char d)"
    and "digit_char d \<noteq> CHR ''-''" and "digit_char d \<noteq> CHR ''+''"
    and "digit_char d \<noteq> CHR ''.''"
  using assms
  by (elim digit_cases; simp add: digit_char_def is_digit_def digit_val_def is_space_def)+

lemma is_digit_props:
  assumes "is_digit c"
  shows "c \<noteq> CHR ''_''" and "\<not> is_space c" and "c \<noteq> CHR ''-''" and "c \<noteq> CHR ''+''"
    and "c \<noteq> CHR ''.''"
  using assms by (auto simp: is_digit_def is_space_def)

lemma str_of_nat_digits: "list_all is_digit (str_of_nat n)"
proof (induction n rule: str_of_nat.induct)
  case (1 n)
  show ?case
  proof (cases "n < 10")
    case True
    then show ?thesis by (subst str_of_nat.simps) (simp add: digit_char_props)
  next
    case False
    then have "list_all is_digit (str_of_nat (n div 10))" by (rule 1)
    moreover have "is_digit (digit_char (n mod 10))" by (simp add: digit_char_props)
    ultimately show ?thesis using False by (subst str_of_nat.simps) simp
  qed
qed

lemma str_of_nat_nonempty: "str_of_nat n \<noteq> []"
  by (subst str_of_nat.simps) simp

lemma decimal_value_digits:
  "list_all is_digit s \<Longrightarrow> decimal_value s = foldl (\<lambda>a c. 10 * a + digit_val c) 0 s"
proof -
  assume "list_all is_digit s"
  then have "filter (\<lambda>c. c \<noteq> CHR ''_'') s = s"
    by (simp add: list_all_iff filter_id_conv is_digit_props)
  then show ?thesis by (simp add: decimal_value_def)
qed

lemma foldl_str_of_nat:
  "foldl (\<lambda>a c. 10 * a + digit_val c) 0 (str_of_nat n) = n"
proof (induction n rule: str_of_nat.induct)
  case (1 n)
  show ?case
  proof (cases "n < 10")
    case True
    then show ?thesis by (subst str_of_nat.simps) (simp add: digit_char_props)
  next
    case False
    then have "foldl (\<lambda>a c. 10 * a + digit_val c) 0 (str_of_nat (n div 10)) = n div 10"
      by (rule 1)
    then show ?thesis using False
      by (subst str_of_nat.simps) (simp add: digit_char_props)
  qed
qed

lemma foldl_zeros:
  "foldl (\<lambda>a c. 10 * a + digit_val c) 0 (replicate k CHR ''0'') = 0"
  by (induction k) (simp_all add: digit_val_def)

lemma padded_digits: "list_all is_digit (replicate k CHR ''0'' @ str_of_nat n)"
proof -
  have "is_digit CHR ''0''" by (simp add: is_digit_def)
  then have "list_all is_digit (replicate k CHR ''0'')" by (induction k) simp_all
  then show ?thesis using str_of_nat_digits[of n] by simp
qed

lemma decimal_value_padded:
  "decimal_value (replicate k CHR ''0'' @ str_of_nat n) = n"
proof -
  have "list_all is_digit (replicate k CHR ''0'' @ str_of_nat n)"
    by (rule padded_digits)
  then show ?thesis
    by (simp add: decimal_value_digits foldl_zeros foldl_str_of_nat)
qed

lemma decimal_value_str_of_nat: "decimal_value (str_of_nat n) = n"
  using decimal_value_padded[of 0 n] by simp

lemma str_of_nat_inj: "str_of_nat m = str_of_nat n \<Longrightarrow> m = n"
  by (metis decimal_value_str_of_nat)

lemma grouped_digits_all:
  "s \<noteq> [] \<Longrightarrow> list_all is_digit s \<Longrightarrow> grouped_digits s"
  by (induction s rule: grouped_digits.induct) (auto simp: is_digit_props)

lemma strip_digits:
  assumes "s \<noteq> []" and "list_all is_digit s"
  shows "strip s = s"
proof -
  from assms obtain c cs where s: "s = c # cs" by (cases s) auto
  with assms have "\<not> is_space c" by (simp add: is_digit_props)
  then have 1: "dropWhile is_space s = s" by (simp add: s)
  have "rev s \<noteq> []" using assms by simp
  then obtain d ds where r: "rev s = d # ds" by (cases "rev s") auto
  then have "d \<in> set s" by (metis list.set_intros(1) set_rev)
  with assms have "\<not> is_space d" by (simp add: list_all_iff is_digit_props)
  then have "dropWhile is_space (rev s) = rev s" by (simp add: r)
  then show ?thesis by (simp add: strip_def 1)
qed

lemma py_int_digits:
  assumes "s \<noteq> []" and "list_all is_digit s"
  shows "py_int s = Inr (int (decimal_value s))"
proof -
  from assms obtain c cs where s: "s = c # cs" by (cases s) auto
  with assms have "c \<noteq> CHR ''-''" "c \<noteq> CHR ''+''" by (simp_all add: is_digit_props)
  moreover have "grouped_digits (c # cs)"
    using grouped_digits_all[OF assms] by (simp add: s)
  ultimately have "(case c # cs of
        [] \<Rightarrow> Inl ValueError
      | c # cs \<Rightarrow>
          if c = CHR ''-'' then
            (if grouped_digits cs then Inr (- int (decimal_value cs)) else Inl ValueError)
          else if c = CHR ''+'' then
            (if grouped_digits cs then Inr (int (decimal_value cs)) else Inl ValueError)
          else
            (if grouped_digits (c # cs) then Inr (int (decimal_value (c # cs)))
             else Inl ValueError)) = Inr (int (decimal_value (c # cs)))"
    by simp
  moreover have "strip (c # cs) = c # cs"
    using strip_digits[OF assms] by (simp add: s)
  ultimately show ?thesis
    unfolding py_int_def s by simp
qed

lemma py_split_first:
  "sep \<notin> set s \<Longrightarrow> py_split sep (s @ sep # rest) = s # py_split sep rest"
  by (induction s) auto

lemma rfind_last:
  "c \<notin> set ext \<Longrightarrow> rfind c (pre @ c # ext) = Some (length pre)"
proof (induction pre)
  case Nil
  have "c \<notin> set ext \<Longrightarrow> rfind c ext = None" by (induction ext) auto
  with Nil show ?case by simp
next
  case (Cons x pre)
  then show ?case by simp
qed

lemma stem_suffix:
  assumes "p \<noteq> []" and "last p = pre @ CHR ''.'' # ext" and "pre \<noteq> []" and "ext \<noteq> []"
    and "CHR ''.'' \<notin> set ext"
  shows "stem p = pre"
proof -
  from assms(1) obtain x xs where p: "p = x # xs" by (cases p) auto
  have "stem p =
     (let name = last p in
      case rfind CHR ''.'' name of
        None \<Rightarrow> name
      | Some i \<Rightarrow> if 0 < i \<and> i < length name - 1 then take i name else name)"
    unfolding stem_def p by simp
  also have "\<dots> = pre"
    unfolding Let_def assms(2) rfind_last[OF assms(5)]
    using assms(3,4) by simp
  finally show ?thesis .
qed

lemma str_of_int_nat: "str_of_int (int n) = str_of_nat n"
  by (simp add: str_of_int_def)

lemma base_name_of_shard:
  assumes "p \<noteq> []"
    and "last p = replicate k CHR ''0'' @ str_of_nat n @ ''-'' @ rest @ ''.'' @ ext"
    and "ext \<noteq> []" and "CHR ''.'' \<notin> set ext"
  shows "parse_base_name p = Inr (int n)"
proof -
  let ?ord = "replicate k CHR ''0'' @ str_of_nat n"
  have dig: "list_all is_digit ?ord"
    by (rule padded_digits)
  have ne: "?ord \<noteq> []" by (simp add: str_of_nat_nonempty)
  have nodash: "CHR ''-'' \<notin> set ?ord"
  proof
    assume "CHR ''-'' \<in> set ?ord"
    with dig have "is_digit CHR ''-''" unfolding list_all_iff by blast
    then show False by (simp add: is_digit_def)
  qed
  have name: "last p = (?ord @ CHR ''-'' # rest) @ CHR ''.'' # ext"
    unfolding assms(2) by (simp only: append_assoc append_Cons append_Nil)
  have ne2: "?ord @ CHR ''-'' # rest \<noteq> []"
    by (simp only: append_is_Nil_conv list.distinct simp_thms)
  have st: "stem p = ?ord @ CHR ''-'' # rest"
    by (rule stem_suffix[OF assms(1) name ne2 assms(3,4)])
  have sp: "py_split CHR ''-'' (stem p) = ?ord # py_split CHR ''-'' rest"
    unfolding st by (rule py_split_first[OF nodash])
  show ?thesis
    unfolding parse_base_name_def sp list.case py_int_digits[OF ne dig] decimal_value_padded ..
qed

section \<open>The converter on the sample record\<close>

lemma map_err_replicate: "f x = Inr y \<Longrightarrow> map_err f (replicate n x) = Inr (replicate n y)"
  by (induction n) simp_all

lemma chunks_replicate: "chunks k n (replicate (n * k) x) = replicate n (replicate k x)"
proof (induction n)
  case 0
  show ?case by simp
next
  case (Suc n)
  have "drop k (replicate (Suc n * k) x) = replicate (n * k) x" by simp
  moreover have "take k (replicate (Suc n * k) x) = replicate k x" by simp
  ultimately show ?case using Suc by (simp del: take_replicate drop_replicate mult_Suc)
qed

lemma rooms_ring_camera_info:
  "map_of DATASETS ''rooms_ring_camera'' =
     Some \<lparr>basepath = ''rooms_ring_camera'', train_size = 2160, test_size = 240,
           frame_size = 64, sequence_size = 10\<rparr>"
  by (simp add: DATASETS_def)

lemma sample_parse:
  "parse_single_example sample_record 10 (10 * NUM_RAW_CAMERA_PARAMS) =
     Inr \<lparr>ex_frames = replicate 10 ''jpeg'',
          ex_cameras = \<lparr>shape = [50], data = replicate 50 0\<rparr>\<rparr>"
  by (simp add: parse_single_example_def sample_record_def NUM_RAW_CAMERA_PARAMS_def)

lemma sample_frames:
  assumes "frame_size info = 64" and "sequence_size info = 10"
  shows "preprocess_frames sample_ops info
       \<lparr>ex_frames = replicate 10 ''jpeg'', ex_cameras = c\<rparr> = Inr (frames sample_scene)"
proof -
  let ?img = "\<lparr>shape = [64, 64, 3], data = replicate (64 * 64 * 3) (0 :: real)\<rparr>"
  have img: "convert_frame_data sample_ops ''jpeg'' = Inr ?img"
    by (simp add: convert_frame_data_def sample_ops_def black_image_def convert_image_dtype_def
        map_tensor_def)
  have me: "map_err (convert_frame_data sample_ops) (replicate 10 ''jpeg'') = Inr (replicate 10 ?img)"
    using img by (rule map_err_replicate[of "convert_frame_data sample_ops" "''jpeg''"])
  have ne: "replicate 10 ?img \<noteq> []" by simp
  have hd: "hd (replicate 10 ?img) = ?img" by simp
  have same: "\<not> list_ex (\<lambda>t. shape t \<noteq> shape ?img) (replicate 10 ?img)"
    by (simp add: list_ex_iff)
  have st: "tf_map_fn (convert_frame_data sample_ops) (replicate 10 ''jpeg'') =
      Inr \<lparr>shape = [10, 64, 64, 3], data = concat (replicate 10 (replicate (64 * 64 * 3) 0))\<rparr>"
    unfolding tf_map_fn_def me sum.case hd using ne same by (simp add: map_replicate)
  have rs: "tf_reshape \<lparr>shape = [10, 64, 64, 3], data = d\<rparr> [- 1, 10, 64, 64, 3] =
      Inr \<lparr>shape = [1, 10, 64, 64, 3], data = d\<rparr>" for d
    by (simp add: tf_reshape_def infer_shape_def)
  show ?thesis
    unfolding preprocess_frames_def Let_def
    by (simp add: st assms NUM_CHANNELS_def rs sample_scene_def)
qed

lemma sample_cameras:
  assumes "sequence_size info = 10"
  shows "preprocess_cameras info
       \<lparr>ex_frames = f, ex_cameras = \<lparr>shape = [50], data = replicate 50 0\<rparr>\<rparr> =
     Inr (cameras sample_scene)"
proof -
  have c: "chunks 5 10 (replicate 50 (0 :: real)) = replicate 10 (replicate 5 0)"
    using chunks_replicate[of 5 10 "0 :: real"] by simp
  have p: "sincos_pose (replicate 5 0) = [0, 0, 0, 0, 1, 0, 1]"
    by (simp add: sincos_pose_def)
  show ?thesis
    using preprocess_cameras_rows[of info
        "\<lparr>ex_frames = f, ex_cameras = \<lparr>shape = [50], data = replicate 50 0\<rparr>\<rparr>"]
    by (simp add: assms c p sample_scene_def)
qed

lemma convert_sample:
  assumes "frame_size info = 64" and "sequence_size info = 10"
  shows "convert_raw_to_gzip sample_ops info sample_record = Inr sample_scene"
  unfolding convert_raw_to_gzip_def assms(2) sample_parse sum.case
    sample_frames[OF assms] sample_cameras[OF assms(2)]
  by simp

section \<open>Conversion and loading of one shard\<close>

lemma map_err_Inr_iff: "map_err f xs = Inr ys \<longleftrightarrow> map f xs = map Inr ys"
proof (induction xs arbitrary: ys)
  case Nil
  show ?case by auto
next
  case (Cons x xs)
  show ?case
  proof (cases "f x")
    case (Inl e)
    then show ?thesis by (cases ys) auto
  next
    case (Inr y)
    show ?thesis
    proof (cases "map_err f xs")
      case (Inl e)
      with Cons[of "tl ys"] Inr show ?thesis by (cases ys) auto
    next
      case r: (Inr zs)
      with Cons[of zs] Cons[of "tl ys"] Inr show ?thesis by (cases ys) auto
    qed
  qed
qed

lemma map_err_total:
  "list_all (\<lambda>x. \<not> isl (f x)) xs \<Longrightarrow> \<exists>ys. map_err f xs = Inr ys"
proof (induction xs)
  case Nil
  show ?case by simp
next
  case (Cons x xs)
  then obtain ys where "map_err f xs = Inr ys" by auto
  moreover from Cons.prems obtain y where "f x = Inr y" by (cases "f x") auto
  ultimately show ?case by simp
qed

lemma map_err_fails:
  "x \<in> set xs \<Longrightarrow> f x = Inl e \<Longrightarrow> \<exists>e' x'. x' \<in> set xs \<and> f x' = Inl e' \<and> map_err f xs = Inl e'"
proof (induction xs)
  case Nil
  then show ?case by simp
next
  case (Cons a xs)
  show ?case
  proof (cases "f a")
    case (Inl e0)
    then show ?thesis by auto
  next
    case (Inr y)
    with Cons.prems have "x \<in> set xs" by auto
    from Cons.IH[OF this Cons.prems(2)] obtain e' x'
      where "x' \<in> set xs" "f x' = Inl e'" "map_err f xs = Inl e'" by blast
    then show ?thesis using Inr by auto
  qed
qed

lemma convert_record_ok:
  assumes "map_of DATASETS ds = Some info"
    and "(if bs = 0 then Inr [] else read_tfrecords fs p) = Inr rs"
    and "map_err (convert_raw_to_gzip ops info) (tf_take bs rs) = Inr scenes"
    and "parse_base_name p = Inr b"
    and "save_shard fs (sd @ [str_of_int b @ ''.pt.gz'']) scenes = Inr fs'"
  shows "convert_record ops p ds sd bs fs = (Inr (), fs')"
  unfolding convert_record_def assms option.case sum.case ..

lemma save_shard_ok:
  assumes "node_at fs sd = Some Dir" and "node_at fs (sd @ [name]) \<noteq> Some Dir"
  shows "save_shard fs (sd @ [name]) scenes = Inr ((sd @ [name], File (Shard scenes)) # fs)"
proof -
  obtain x xs where c: "sd @ [name] = x # xs" by (cases "sd @ [name]") auto
  have "save_shard fs (sd @ [name]) scenes =
      (case node_at fs (butlast (sd @ [name])) of
             None \<Rightarrow> Inl FileNotFoundError
           | Some (File _) \<Rightarrow> Inl NotADirectoryError
           | Some Dir \<Rightarrow>
               if node_at fs (sd @ [name]) = Some Dir then Inl IsADirectoryError
               else Inr ((sd @ [name], File (Shard scenes)) # fs))"
    unfolding save_shard_def by (simp only: c list.case)
  then show ?thesis using assms by simp
qed

lemma load_saved:
  "load_shard ((q, File (Shard scenes)) # fs) q = (if q = [] then Inl IsADirectoryError else Inr scenes)"
  by (simp add: load_shard_def node_at_def)

lemma sample_name: "str_of_int 1 = ''1''" "str_of_int 42 = ''42''" "str_of_int 0 = ''0''"
  by (simp_all add: str_of_int_def str_of_nat.simps digit_char_def)

lemma sample_index:
  "parse_base_name [''in'', ''1-of-1.tfrecord''] = Inr 1"
  "parse_base_name [''in'', ''042-of-900.tfrecord''] = Inr 42"
  "parse_base_name [''in'', ''042-of-900.ext''] = Inr 42"
  by (simp_all add: parse_base_name_def stem_def Let_def py_int_def strip_def is_space_def
      is_digit_def decimal_value_def digit_val_def)

lemma convert_sample_shard:
  assumes "parse_base_name [''in'', name] = Inr b"
    and "tf_take bs rs = [sample_record]" and "bs \<noteq> 0"
  shows "convert_record sample_ops [''in'', name] ''rooms_ring_camera'' [''out''] bs (shard_fs name rs) =
     (Inr (), ([''out'', str_of_int b @ ''.pt.gz''], File (Shard [sample_scene])) # shard_fs name rs)"
proof -
  let ?info = "\<lparr>basepath = ''rooms_ring_camera'', train_size = 2160, test_size = 240,
           frame_size = 64, sequence_size = 10\<rparr>"
  have rd: "(if bs = 0 then Inr [] else read_tfrecords (shard_fs name rs) [''in'', name]) = Inr rs"
    using assms(3) by (simp add: read_tfrecords_def node_at_def shard_fs_def)
  have cv: "map_err (convert_raw_to_gzip sample_ops ?info) (tf_take bs rs) = Inr [sample_scene]"
    unfolding assms(2) by (simp add: convert_sample)
  have sv: "save_shard (shard_fs name rs) ([''out''] @ [str_of_int b @ ''.pt.gz'']) [sample_scene] =
      Inr (([''out''] @ [str_of_int b @ ''.pt.gz''], File (Shard [sample_scene])) # shard_fs name rs)"
    by (rule save_shard_ok) (simp_all add: node_at_def shard_fs_def)
  show ?thesis
    using convert_record_ok[OF rooms_ring_camera_info rd cv assms(1) sv] by simp
qed

lemma torch_permute_ok:
  assumes "length dims = length (shape t)" and "\<not> list_ex (\<lambda>d. length (shape t) \<le> d) dims"
    and "length (remdups dims) = length dims"
  shows "\<exists>r. torch_permute t dims = Inr r"
  using assms by (simp add: torch_permute_def Let_def)

lemma transform_viewpoint_7:
  assumes "shape t = sh @ [7]"
  shows "transform_viewpoint t = Inl ValueError"
proof -
  have "[0..<3] = [0, 1, 2]" by (simp add: upt_rec)
  then have "\<exists>a b c. torch_split t 3 = Inr [a, b, c]"
    by (simp add: torch_split_def assms Let_def)
  then obtain a b c where "torch_split t 3 = Inr [a, b, c]" by blast
  then show ?thesis by (simp add: transform_viewpoint_def unpack2_def)
qed

lemma getitem_7:
  assumes "load_shard fs (root_dir self @ [str_of_int index @ ''.pt.gz'']) = Inr ds"
    and "torch_stack (map frames ds) = Inr im" and "length (shape im) = 5"
    and "torch_stack (map cameras ds) = Inr vp" and "shape vp = sh @ [7]"
  shows "getitem fs self index = Inl ValueError"
proof -
  have "\<exists>r. torch_permute im [0, 1, 4, 2, 3] = Inr r"
    by (rule torch_permute_ok) (simp_all add: assms(3))
  then obtain r where r: "torch_permute im [0, 1, 4, 2, 3] = Inr r" by blast
  show ?thesis
    unfolding getitem_def assms(1,2,4) sum.case r transform_viewpoint_7[OF assms(5)] ..
qed

lemma getitem_rank:
  assumes "load_shard fs (root_dir self @ [str_of_int index @ ''.pt.gz'']) = Inr ds"
    and "torch_stack (map frames ds) = Inr im" and "length (shape im) \<noteq> 5"
    and "torch_stack (map cameras ds) = Inr vp"
  shows "getitem fs self index = Inl RuntimeError"
proof -
  have r: "torch_permute im [0, 1, 4, 2, 3] = Inl RuntimeError"
    using assms(3) by (simp add: torch_permute_def)
  show ?thesis
    unfolding getitem_def assms(1,2,4) sum.case r ..
qed

lemma spec_shard_raises: "getitem spec_fs \<lparr>root_dir = [''out'']\<rparr> 1 = Inl ValueError"
proof (rule getitem_7)
  show "load_shard spec_fs (root_dir \<lparr>root_dir = [''out'']\<rparr> @ [str_of_int 1 @ ''.pt.gz'']) = Inr [spec_scene]"
    by (simp add: sample_name load_shard_def node_at_def spec_fs_def)
  show "torch_stack (map frames [spec_scene]) =
      Inr \<lparr>shape = [1, 10, 64, 64, 3], data = concat (map data (map frames [spec_scene]))\<rparr>"
    by (simp add: torch_stack_def spec_scene_def)
  show "length (shape \<lparr>shape = [1, 10, 64, 64, 3], data = concat (map data (map frames [spec_scene]))\<rparr>) = 5"
    by simp
  show "torch_stack (map cameras [spec_scene]) =
      Inr \<lparr>shape = [1, 10, 7], data = concat (map data (map cameras [spec_scene]))\<rparr>"
    by (simp add: torch_stack_def spec_scene_def)
  show "shape \<lparr>shape = [1, 10, 7], data = concat (map data (map cameras [spec_scene]))\<rparr> = [1, 10] @ [7]"
    by simp
qed

lemma sample_shard_raises:
  "getitem (([''out'', ''1.pt.gz''], File (Shard [sample_scene])) # fs) \<lparr>root_dir = [''out'']\<rparr> 1
     = Inl RuntimeError"
proof (rule getitem_rank)
  show "load_shard (([''out'', ''1.pt.gz''], File (Shard [sample_scene])) # fs)
      (root_dir \<lparr>root_dir = [''out'']\<rparr> @ [str_of_int 1 @ ''.pt.gz'']) = Inr [sample_scene]"
    by (simp add: sample_name load_saved)
  show "torch_stack (map frames [sample_scene]) =
      Inr \<lparr>shape = [1, 1, 10, 64, 64, 3], data = concat (map data (map frames [sample_scene]))\<rparr>"
    by (simp add: torch_stack_def sample_scene_def)
  show "length (shape \<lparr>shape = [1, 1, 10, 64, 64, 3], data = concat (map data (map frames [sample_scene]))\<rparr>) \<noteq> 5"
    by simp
  show "torch_stack (map cameras [sample_scene]) =
      Inr \<lparr>shape = [1, 1, 10, 7], data = concat (map data (map cameras [sample_scene]))\<rparr>"
    by (simp add: torch_stack_def sample_scene_def)
qed

lemma save_shard_result:
  "save_shard fs q scenes = Inr fs' \<Longrightarrow> fs' = (q, File (Shard scenes)) # fs"
  by (auto simp: save_shard_def split: list.splits option.splits node.splits if_splits)

lemma convert_record_result:
  assumes "convert_record ops p ds sd bs fs = (Inr (), fs')"
  shows "\<exists>b scenes. parse_base_name p = Inr b \<and>
           fs' = (sd @ [str_of_int b @ ''.pt.gz''], File (Shard scenes)) # fs"
  using assms unfolding convert_record_def
  by (auto split: option.splits sum.splits dest: save_shard_result)

lemma str_42: "str_of_nat 42 = ''42''"
  by (simp add: str_of_nat.simps digit_char_def)

section \<open>The selection of the driver\<close>

lemma dataset_key:
  assumes "map_of DATASETS ds = Some info"
  shows "CHR ''/'' \<notin> set ds \<and> ds \<noteq> [] \<and> ds \<noteq> ''.''"
proof -
  from assms have "ds \<in> fst ` set DATASETS" by (rule map_of_SomeD[THEN imageI[where f = fst], simplified])
  then show ?thesis by (auto simp: DATASETS_def)
qed

lemma path_parts_head:
  assumes "CHR ''/'' \<notin> set d" and "d \<noteq> []" and "d \<noteq> ''.''"
  shows "path_parts (d @ CHR ''/'' # rest) = d # path_parts rest"
  using assms by (simp add: path_parts_def py_split_first)

lemma data_root: "path_parts ''./data/'' = [''data'']"
  by (simp add: path_parts_def)

lemma tf_dir_shape:
  assumes "map_of DATASETS (arg_dataset a) = Some info"
  shows "tf_dir_of a = ''data'' # arg_dataset a # path_parts (arg_mode a @ ''/'')"
  using dataset_key[OF assms]
  by (simp add: tf_dir_of_def data_root path_parts_head)

lemma torch_dir_shape:
  assumes "map_of DATASETS (arg_dataset a) = Some info"
  shows "torch_dir_of a = ''data'' # (arg_dataset a @ ''_torch'') # path_parts (arg_mode a @ ''/'')"
proof -
  from dataset_key[OF assms] have "CHR ''/'' \<notin> set (arg_dataset a @ ''_torch'')"
    and "arg_dataset a @ ''_torch'' \<noteq> []" and "arg_dataset a @ ''_torch'' \<noteq> ''.''"
    by auto
  from path_parts_head[OF this, of "arg_mode a @ ''/''"] show ?thesis
    by (simp add: torch_dir_of_def data_root)
qed

lemma mkdir_from_other:
  assumes "mkdir_from fs pre cs = Inr fs'" and "take (length q) (pre @ cs) \<noteq> q"
  shows "map_of fs' q = map_of fs q"
  using assms
proof (induction cs arbitrary: fs pre)
  case Nil
  then show ?case by simp
next
  case (Cons c cs)
  have ne: "pre @ [c] \<noteq> q"
  proof
    assume "pre @ [c] = q"
    then have "take (length q) (pre @ c # cs) = q" by auto
    with Cons.prems(2) show False by simp
  qed
  have tk: "take (length q) ((pre @ [c]) @ cs) \<noteq> q" using Cons.prems(2) by simp
  show ?case
  proof (cases "node_at fs (pre @ [c])")
    case None
    with Cons.prems(1) have "mkdir_from ((pre @ [c], Dir) # fs) (pre @ [c]) cs = Inr fs'" by simp
    from Cons.IH[OF this tk] show ?thesis using ne by simp
  next
    case (Some nd)
    show ?thesis
    proof (cases nd)
      case Dir
      with Some Cons.prems(1) have "mkdir_from fs (pre @ [c]) cs = Inr fs'" by simp
      from Cons.IH[OF this tk] show ?thesis .
    next
      case (File x)
      with Some Cons.prems(1) show ?thesis by simp
    qed
  qed
qed

lemma children_set: "set (children fs d) = {n. map_of fs (d @ [n]) \<noteq> None}"
proof -
  have "n \<in> set (children fs d) \<longleftrightarrow> d @ [n] \<in> fst ` set fs" for n
  proof
    assume "n \<in> set (children fs d)"
    then obtain p where p: "p \<in> fst ` set fs" "p \<noteq> []" "butlast p = d" "last p = n"
      by (auto simp: children_def)
    then have "p = d @ [n]" by (metis append_butlast_last_id)
    with p show "d @ [n] \<in> fst ` set fs" by simp
  next
    assume "d @ [n] \<in> fst ` set fs"
    then have "last (d @ [n]) \<in> last ` {p \<in> fst ` set fs. p \<noteq> [] \<and> butlast p = d}"
      by (intro imageI) simp
    then show "n \<in> set (children fs d)" by (simp add: children_def)
  qed
  then show ?thesis by (auto simp: map_of_eq_None_iff)
qed

lemma distinct_children: "distinct (children fs d)"
  by (simp add: children_def)

lemma glob_suffix_files:
  "set (glob_suffix fs d ''.tfrecord'') = shard_files fs d"
proof (cases "node_at fs d = Some Dir")
  case True
  then show ?thesis
    by (auto simp: glob_suffix_def shard_files_def children_set path_exists_def node_at_def)
next
  case False
  then show ?thesis
    by (auto simp: glob_suffix_def shard_files_def split: option.splits node.splits)
qed

lemma distinct_glob_suffix: "distinct (glob_suffix fs d suf)"
  by (auto simp: glob_suffix_def distinct_map distinct_children inj_on_def
      split: option.splits node.splits)

lemma sort_glob:
  "sorted_wrt (<) (sort (glob_suffix fs d ''.tfrecord'')) \<and>
   set (sort (glob_suffix fs d ''.tfrecord'')) = shard_files fs d"
  by (simp add: strict_sorted_iff distinct_glob_suffix glob_suffix_files)

lemma mkdir_keeps_tf_dir:
  assumes ds: "map_of DATASETS (arg_dataset a) = Some info"
    and mk: "mkdir_parents fs (torch_dir_of a) = Inr fs1"
  shows "map_of fs1 (tf_dir_of a @ rest) = map_of fs (tf_dir_of a @ rest)"
proof -
  let ?m = "path_parts (arg_mode a @ ''/'')"
  let ?q = "''data'' # arg_dataset a # ?m @ rest"
  have "take (length ?q) (''data'' # (arg_dataset a @ ''_torch'') # ?m) \<noteq> ?q"
    by simp
  then have "take (length (tf_dir_of a @ rest)) ([] @ torch_dir_of a) \<noteq> tf_dir_of a @ rest"
    by (simp add: tf_dir_shape[OF ds] torch_dir_shape[OF ds])
  with mk show ?thesis
    unfolding mkdir_parents_def by (rule mkdir_from_other)
qed

lemma mkdir_keeps_node:
  assumes ds: "map_of DATASETS (arg_dataset a) = Some info"
    and mk: "mkdir_parents fs (torch_dir_of a) = Inr fs1"
  shows "node_at fs1 (tf_dir_of a) = node_at fs (tf_dir_of a)"
    and "path_exists fs1 (tf_dir_of a) = path_exists fs (tf_dir_of a)"
    and "shard_files fs1 (tf_dir_of a) = shard_files fs (tf_dir_of a)"
proof -
  show n: "node_at fs1 (tf_dir_of a) = node_at fs (tf_dir_of a)"
    using mkdir_keeps_tf_dir[OF ds mk, of "[]"] by (simp add: node_at_def)
  then show "path_exists fs1 (tf_dir_of a) = path_exists fs (tf_dir_of a)"
    by (simp add: path_exists_def)
  have "path_exists fs1 (tf_dir_of a @ [name]) = path_exists fs (tf_dir_of a @ [name])" for name
    using mkdir_keeps_tf_dir[OF ds mk, of "[name]"] by (simp add: path_exists_def node_at_def)
  then show "shard_files fs1 (tf_dir_of a) = shard_files fs (tf_dir_of a)"
    by (simp add: shard_files_def n)
qed

lemma driver_paths:
  "tf_dir_of driver_args = [''data'', ''jaco'', ''train'']"
  "torch_dir_of driver_args = [''data'', ''jaco_torch'', ''train'']"
  by (simp_all add: tf_dir_of_def torch_dir_of_def driver_args_def path_parts_def)

lemma driver_mkdir:
  "mkdir_parents driver_fs [''data'', ''jaco_torch'', ''train''] = Inr driver_fs1"
  by (simp add: mkdir_parents_def driver_fs_def driver_fs1_def node_at_def)

lemma jaco_info:
  "map_of DATASETS ''jaco'' =
     Some \<lparr>basepath = ''jaco'', train_size = 3600, test_size = 400,
           frame_size = 64, sequence_size = 11\<rparr>"
  by (simp add: DATASETS_def)

section \<open>The directory the converter produces\<close>

lemma shard_file_name_inj:
  "sd @ [str_of_nat m @ ''.pt.gz''] = sd @ [str_of_nat n @ ''.pt.gz''] \<longleftrightarrow> m = n"
  using str_of_nat_inj[of m n] by auto

lemma convert_records_nodes:
  assumes "convert_records ops ps ds sd bs fs = (Inr (), fs')"
    and "list_all2 (\<lambda>p n. parse_base_name p = Inr (int n)) ps ns"
  shows "(\<forall>q. q \<notin> (\<lambda>n. sd @ [str_of_nat n @ ''.pt.gz'']) ` set ns \<longrightarrow> map_of fs' q = map_of fs q) \<and>
         (\<forall>q. map_of fs q \<noteq> None \<longrightarrow> map_of fs' q \<noteq> None) \<and>
         (\<forall>n \<in> set ns. map_of fs' (sd @ [str_of_nat n @ ''.pt.gz'']) \<noteq> None)"
  using assms
proof (induction ps arbitrary: fs ns)
  case Nil
  then show ?case by simp
next
  case (Cons p ps)
  from Cons.prems(2) obtain n ns' where ns: "ns = n # ns'"
    and pn: "parse_base_name p = Inr (int n)"
    and rest: "list_all2 (\<lambda>p n. parse_base_name p = Inr (int n)) ps ns'"
    by (auto simp: list_all2_Cons1)
  obtain r fs1 where c: "convert_record ops p ds sd bs fs = (r, fs1)"
    by (cases "convert_record ops p ds sd bs fs")
  with Cons.prems(1) obtain u where r: "r = Inr u"
    by (cases r) auto
  with c Cons.prems(1) have run: "convert_records ops ps ds sd bs fs1 = (Inr (), fs')"
    by simp
  from c r have "convert_record ops p ds sd bs fs = (Inr (), fs1)" by simp
  from convert_record_result[OF this] pn obtain scenes
    where fs1: "fs1 = (sd @ [str_of_nat n @ ''.pt.gz''], File (Shard scenes)) # fs"
    by (auto simp: str_of_int_nat)
  from Cons.IH[OF run rest]
  have ih1: "\<And>q. q \<notin> (\<lambda>n. sd @ [str_of_nat n @ ''.pt.gz'']) ` set ns' \<Longrightarrow> map_of fs' q = map_of fs1 q"
    and ih2: "\<And>q. map_of fs1 q \<noteq> None \<Longrightarrow> map_of fs' q \<noteq> None"
    and ih3: "\<And>m. m \<in> set ns' \<Longrightarrow> map_of fs' (sd @ [str_of_nat m @ ''.pt.gz'']) \<noteq> None"
    by blast+
  have 1: "map_of fs' q = map_of fs q"
    if "q \<notin> (\<lambda>n. sd @ [str_of_nat n @ ''.pt.gz'']) ` set ns" for q
  proof -
    from that have "q \<notin> (\<lambda>n. sd @ [str_of_nat n @ ''.pt.gz'']) ` set ns'"
      and "q \<noteq> sd @ [str_of_nat n @ ''.pt.gz'']"
      by (auto simp: ns)
    then show ?thesis using ih1[of q] by (simp add: fs1)
  qed
  have 2: "map_of fs' q \<noteq> None" if "map_of fs q \<noteq> None" for q
  proof -
    from that have "map_of fs1 q \<noteq> None" by (simp add: fs1)
    then show ?thesis by (rule ih2)
  qed
  have 3: "map_of fs' (sd @ [str_of_nat m @ ''.pt.gz'']) \<noteq> None" if "m \<in> set ns" for m
  proof (cases "m \<in> set ns'")
    case True
    then show ?thesis by (rule ih3)
  next
    case False
    with that have "m = n" by (simp add: ns)
    then have "map_of fs1 (sd @ [str_of_nat m @ ''.pt.gz'']) \<noteq> None" by (simp add: fs1)
    then show ?thesis by (rule ih2)
  qed
  from 1 2 3 show ?case by blast
qed

lemma shard_fs_out_empty: "children (shard_fs name rs) [''out''] = []"
  by (simp add: children_def shard_fs_def)

section \<open>The transform with a library's sine and cosine\<close>



lemma exact_lib_conversion: "preprocess_cameras_lib exact_lib info ex = preprocess_cameras info ex"
  unfolding preprocess_cameras_lib_def preprocess_cameras_def exact_lib_def tf_sin_def tf_cos_def
    trig_lib.select_convs ..

lemma exact_lib_loading: "transform_viewpoint_lib exact_lib t = transform_viewpoint t"
  unfolding transform_viewpoint_lib_def transform_viewpoint_def exact_lib_def torch_sin_def
    torch_cos_def trig_lib.select_convs ..

subsection \<open>Binary fractions on the unit circle\<close>




subsection \<open>Rounding to float32\<close>








subsection \<open>Poses near the unit circle\<close>





section \<open>Records that do not match the declared shapes\<close>

lemma parse_rejects_mismatch:
  assumes "\<not> matches_declared_shapes info raw"
  shows "parse_single_example raw (sequence_size info)
           (sequence_size info * NUM_RAW_CAMERA_PARAMS) = Inl InvalidArgumentError"
  using assms
  by (auto simp: matches_declared_shapes_def parse_single_example_def NUM_RAW_CAMERA_PARAMS_def
      split: raw_data.splits option.splits feature.splits)

lemma convert_rejects_mismatch:
  assumes "\<not> matches_declared_shapes info raw"
  shows "convert_raw_to_gzip ops info raw = Inl InvalidArgumentError"
  unfolding convert_raw_to_gzip_def parse_rejects_mismatch[OF assms] by simp

lemma failed_record_aborts:
  assumes "map_of DATASETS ds = Some info"
    and "read_tfrecords fs p = Inr rs"
    and "r \<in> set (tf_take bs rs)"
    and "convert_raw_to_gzip ops info r = Inl e"
  shows "\<exists>e' r'. r' \<in> set (tf_take bs rs) \<and> convert_raw_to_gzip ops info r' = Inl e' \<and>
           convert_record ops p ds sd bs fs = (Inl e', fs)"
proof -
  have "bs \<noteq> 0" using assms(3) by (auto simp: tf_take_def)
  then have rd: "(if bs = 0 then Inr [] else read_tfrecords fs p) = Inr rs"
    using assms(2) by simp
  from map_err_fails[of r "tf_take bs rs" "convert_raw_to_gzip ops info" e, OF assms(3,4)] obtain e' r'
    where r': "r' \<in> set (tf_take bs rs)" "convert_raw_to_gzip ops info r' = Inl e'"
      and me: "map_err (convert_raw_to_gzip ops info) (tf_take bs rs) = Inl e'" by blast
  have "convert_record ops p ds sd bs fs = (Inl e', fs)"
    unfolding convert_record_def assms(1) option.case rd sum.case me ..
  with r' show ?thesis by blast
qed

lemma map_err_first_failure:
  assumes "list_all (\<lambda>x. \<not> isl (f x)) pre" and "f x = Inl e"
  shows "map_err f (pre @ x # post) = Inl e"
  using assms
proof (induction pre)
  case Nil
  then show ?case by simp
next
  case (Cons a pre)
  then obtain y where "f a = Inr y" by (cases "f a") auto
  with Cons show ?case by simp
qed


section \<open>The viewpoint transform\<close>

text \<open>
  Claim C1, as amended. The specification asks for the order (x, y, z, sin(yaw), cos(yaw),
  sin(pitch), cos(pitch)) at both call sites. The code does this at conversion time only:
  for every well-formed raw pose array, \<open>_preprocess_cameras\<close> produces sine before
  cosine for each pose, while \<open>transform_viewpoint\<close>, on an array whose last axis has 5
  entries, produces (x, y, z, cos(yaw), sin(yaw), cos(pitch), sin(pitch)), the order its
  docstring gives.
\<close>

theorem viewpoint_orders:
  "(0 < sequence_size info \<and> shape (ex_cameras ex) = [sequence_size info * 5] \<and>
     length (data (ex_cameras ex)) = sequence_size info * 5 \<longrightarrow>
     preprocess_cameras info ex =
       Inr \<lparr>shape = [1, sequence_size info, 7],
            data = concat (map sincos_pose (chunks 5 (sequence_size info) (data (ex_cameras ex))))\<rparr>) \<and>
   (shape t = sh @ [5] \<and> length (data t) = prod_list sh * 5 \<longrightarrow>
     transform_viewpoint t =
       Inr \<lparr>shape = sh @ [7],
            data = concat (map cossin_pose (chunks 5 (prod_list sh) (data t)))\<rparr>)"
  using preprocess_cameras_rows[of info ex] transform_viewpoint_rows[of t sh] by blast

theorem viewpoint_orders_witness:
  "preprocess_cameras pose_info pose_example =
     Inr \<lparr>shape = [1, 2, 7],
          data = [1, 2, 3, sin 4, cos 4, sin 5, cos 5, 6, 7, 8, sin 9, cos 9, sin 10, cos 10]\<rparr> \<and>
   transform_viewpoint pose_tensor =
     Inr \<lparr>shape = [2, 7],
          data = [1, 2, 3, cos 4, sin 4, cos 5, sin 5, 6, 7, 8, cos 9, sin 9, cos 10, sin 10]\<rparr>"
  using viewpoint_orders[of pose_info pose_example pose_tensor "[2]"]
  by (simp add: pose_info_def pose_example_def pose_tensor_def chunks_2 sincos_pose_def
      cossin_pose_def)

text \<open>
  The claim C1 as stated fails at the pose (0, 0, 0, 0, 0): the load-time transform gives
  (0, 0, 0, 1, 0, 1, 0), and the canonical order is (0, 0, 0, 0, 1, 0, 1).
\<close>

theorem viewpoint_orders_differ:
  "transform_viewpoint \<lparr>shape = [5], data = [0, 0, 0, 0, 0]\<rparr> =
     Inr \<lparr>shape = [7], data = [0, 0, 0, 1, 0, 1, 0]\<rparr> \<and>
   sincos_pose [0, 0, 0, 0, 0] = [0, 0, 0, 0, 1, 0, 1] \<and>
   transform_viewpoint \<lparr>shape = [5], data = [0, 0, 0, 0, 0]\<rparr> \<noteq>
     Inr \<lparr>shape = [7], data = sincos_pose [0, 0, 0, 0, 0]\<rparr>"
  using transform_viewpoint_rows[of "\<lparr>shape = [5], data = [0, 0, 0, 0, 0]\<rparr>" "[]"]
  by (simp add: sincos_pose_def cossin_pose_def)




section \<open>The pipeline\<close>

text \<open>
  Claim C2 asks that the transform be applied once, at conversion time, and that the
  loader take the stored viewpoints as they are. \<open>SceneDataset.__getitem__\<close> applies
  \<open>transform_viewpoint\<close> to whatever the shard holds: on a shard in the final layout
  (frames of shape (10, 64, 64, 3), viewpoints of 7 components) the split of the last
  axis into pieces of 3 gives three pieces, and unpacking them into two names raises
  ValueError.
\<close>

theorem loader_transforms_again:
  "getitem spec_fs \<lparr>root_dir = [''out'']\<rparr> 1 = Inl ValueError"
  by (rule spec_shard_raises)

text \<open>
  Claim C3 asks that a converted shard of \<open>k\<close> records load back as \<open>k\<close> records. On the
  code the round trip raises: the converter writes the shard \<open>out/1.pt.gz\<close> of the one
  record of \<open>in/1-of-1.tfrecord\<close>, and loading index 1 fails in \<open>permute\<close>, the stacked
  frames having six axes.
\<close>

theorem round_trip_raises:
  "convert_record sample_ops [''in'', ''1-of-1.tfrecord''] ''rooms_ring_camera'' [''out''] 16
       (shard_fs ''1-of-1.tfrecord'' [sample_record]) =
     (Inr (), ([''out'', ''1.pt.gz''], File (Shard [sample_scene])) #
                shard_fs ''1-of-1.tfrecord'' [sample_record]) \<and>
   getitem (([''out'', ''1.pt.gz''], File (Shard [sample_scene])) #
              shard_fs ''1-of-1.tfrecord'' [sample_record]) \<lparr>root_dir = [''out'']\<rparr> 1 =
     Inl RuntimeError"
  using convert_sample_shard[of "''1-of-1.tfrecord''" 1 16 "[sample_record]"]
  by (simp add: sample_index sample_name tf_take_def sample_shard_raises)

text \<open>
  Claim C4 asks for frames of shape (sequence_length, 64, 64, 3) and cameras of shape
  (sequence_length, 7) in each stored scene. The scene the converter makes of a
  well-formed record of \<open>rooms_ring_camera\<close> has a leading axis of length 1 in both:
  (1, 10, 64, 64, 3) and (1, 10, 7).
\<close>

theorem scene_has_batch_axis:
  "map_option (\<lambda>info. map_sum id (\<lambda>s. (shape (frames s), shape (cameras s)))
        (convert_raw_to_gzip sample_ops info sample_record))
     (map_of DATASETS ''rooms_ring_camera'') =
   Some (Inr ([1, 10, 64, 64, 3], [1, 10, 7]))"
  by (simp add: rooms_ring_camera_info convert_sample sample_scene_def)

section \<open>The shard converter\<close>

text \<open>
  Claim C6, as amended. For an input shard named by zeros, an ordinal, \<open>-of-\<close>, a total
  and an extension, a conversion that succeeds adds exactly one file to the file system,
  \<open>save_dir/<ordinal>.pt.gz\<close>: the ordinal is written without its leading zeros, and
  the suffix is \<open>.pt.gz\<close> whatever the extension of the input.
\<close>

theorem shard_name:
  assumes "p \<noteq> []"
    and "last p = replicate k CHR ''0'' @ str_of_nat n @ ''-of-'' @ tot @ ''.'' @ ext"
    and "ext \<noteq> []" and "CHR ''.'' \<notin> set ext"
    and "convert_record ops p ds sd bs fs = (Inr (), fs')"
  shows "\<exists>scenes. fs' = (sd @ [str_of_nat n @ ''.pt.gz''], File (Shard scenes)) # fs"
proof -
  have "last p = replicate k CHR ''0'' @ str_of_nat n @ ''-'' @ (''of-'' @ tot) @ ''.'' @ ext"
    by (simp add: assms(2))
  from base_name_of_shard[OF assms(1) this assms(3,4)]
  have "parse_base_name p = Inr (int n)" .
  with convert_record_result[OF assms(5)] show ?thesis
    by (auto simp: str_of_int_nat)
qed

theorem shard_name_witness:
  "convert_record sample_ops [''in'', ''042-of-900.tfrecord''] ''rooms_ring_camera'' [''out''] 1
       (shard_fs ''042-of-900.tfrecord'' [sample_record, short_record]) =
     (Inr (), ([''out'', ''42.pt.gz''], File (Shard [sample_scene])) #
        shard_fs ''042-of-900.tfrecord'' [sample_record, short_record]) \<and>
   (\<exists>scenes. ([''out'', ''42.pt.gz''], File (Shard [sample_scene])) #
        shard_fs ''042-of-900.tfrecord'' [sample_record, short_record] =
     ([''out''] @ [str_of_nat 42 @ ''.pt.gz''], File (Shard scenes)) #
        shard_fs ''042-of-900.tfrecord'' [sample_record, short_record])"
proof -
  have run: "convert_record sample_ops [''in'', ''042-of-900.tfrecord''] ''rooms_ring_camera''
       [''out''] 1 (shard_fs ''042-of-900.tfrecord'' [sample_record, short_record]) =
     (Inr (), ([''out'', ''42.pt.gz''], File (Shard [sample_scene])) #
        shard_fs ''042-of-900.tfrecord'' [sample_record, short_record])"
    using convert_sample_shard[of "''042-of-900.tfrecord''" 42 1 "[sample_record, short_record]"]
    by (simp add: sample_index sample_name tf_take_def)
  have name: "last [''in'', ''042-of-900.tfrecord''] =
      replicate 1 CHR ''0'' @ str_of_nat 42 @ ''-of-'' @ ''900'' @ ''.'' @ ''tfrecord''"
    by (simp add: str_42)
  from shard_name[OF _ name _ _ run] run show ?thesis by simp
qed

text \<open>
  The claim C6 as stated fails on its own example: the input \<open>042-of-900.ext\<close> is written
  to \<open>42.pt.gz\<close>, and no file \<open>42.ext.gz\<close> exists afterwards.
\<close>

theorem shard_name_ext_counterexample:
  "convert_record sample_ops [''in'', ''042-of-900.ext''] ''rooms_ring_camera'' [''out''] 16
       (shard_fs ''042-of-900.ext'' [sample_record]) =
     (Inr (), ([''out'', ''42.pt.gz''], File (Shard [sample_scene])) #
                shard_fs ''042-of-900.ext'' [sample_record]) \<and>
   node_at (([''out'', ''42.pt.gz''], File (Shard [sample_scene])) #
              shard_fs ''042-of-900.ext'' [sample_record]) [''out'', ''42.ext.gz''] = None"
  using convert_sample_shard[of "''042-of-900.ext''" 42 16 "[sample_record]"]
  by (simp add: sample_index sample_name tf_take_def node_at_def shard_fs_def)

text \<open>
  Claim C7. With a batch size that is not negative, \<open>convert_record\<close> converts the
  first \<open>min(batch_size, available)\<close> records of the shard in file order and stores
  exactly their scenes. Nothing is asked of the records after the batch: they are never
  decoded, so they raise nothing.
\<close>

theorem convert_record_takes_batch:
  assumes "map_of DATASETS ds = Some info"
    and "read_tfrecords fs p = Inr rs"
    and "0 \<le> bs"
    and "list_all (\<lambda>r. \<not> isl (convert_raw_to_gzip ops info r)) (take (nat bs) rs)"
    and "parse_base_name p = Inr b"
    and "node_at fs sd = Some Dir"
    and "node_at fs (sd @ [str_of_int b @ ''.pt.gz'']) \<noteq> Some Dir"
  shows "\<exists>scenes fs'. convert_record ops p ds sd bs fs = (Inr (), fs') \<and>
           load_shard fs' (sd @ [str_of_int b @ ''.pt.gz'']) = Inr scenes \<and>
           length scenes = min (nat bs) (length rs) \<and>
           map Inr scenes = map (convert_raw_to_gzip ops info) (take (nat bs) rs)"
proof -
  from map_err_total[of "convert_raw_to_gzip ops info", OF assms(4)] obtain scenes
    where sc: "map_err (convert_raw_to_gzip ops info) (take (nat bs) rs) = Inr scenes" by blast
  then have m: "map (convert_raw_to_gzip ops info) (take (nat bs) rs) = map Inr scenes"
    by (simp add: map_err_Inr_iff)
  then have "length (take (nat bs) rs) = length scenes" by (metis length_map)
  then have len: "length scenes = min (nat bs) (length rs)" by (simp add: min.commute)
  let ?q = "sd @ [str_of_int b @ ''.pt.gz'']"
  let ?recs = "if bs = 0 then [] else rs"
  have rd: "(if bs = 0 then Inr [] else read_tfrecords fs p) = Inr ?recs"
    using assms(2) by simp
  have tk: "tf_take bs ?recs = take (nat bs) rs"
    using assms(3) by (simp add: tf_take_def)
  have cv: "map_err (convert_raw_to_gzip ops info) (tf_take bs ?recs) = Inr scenes"
    unfolding tk by (rule sc)
  have sv: "save_shard fs ?q scenes = Inr ((?q, File (Shard scenes)) # fs)"
    by (rule save_shard_ok[OF assms(6,7)])
  have "convert_record ops p ds sd bs fs = (Inr (), (?q, File (Shard scenes)) # fs)"
    by (rule convert_record_ok[OF assms(1) rd cv assms(5) sv])
  moreover have "load_shard ((?q, File (Shard scenes)) # fs) ?q = Inr scenes"
    by (simp add: load_saved)
  ultimately show ?thesis using len m by auto
qed

theorem convert_record_takes_batch_witness:
  "\<exists>scenes fs'.
      convert_record sample_ops [''in'', ''042-of-900.tfrecord''] ''rooms_ring_camera'' [''out''] 1
        (shard_fs ''042-of-900.tfrecord'' [sample_record, short_record]) = (Inr (), fs') \<and>
      load_shard fs' [''out'', ''42.pt.gz''] = Inr scenes \<and>
      length scenes = 1 \<and>
      map Inr scenes = [convert_raw_to_gzip sample_ops
          \<lparr>basepath = ''rooms_ring_camera'', train_size = 2160, test_size = 240,
           frame_size = 64, sequence_size = 10\<rparr> sample_record]"
  using convert_record_takes_batch[of "''rooms_ring_camera''"
      "\<lparr>basepath = ''rooms_ring_camera'', train_size = 2160, test_size = 240,
           frame_size = 64, sequence_size = 10\<rparr>"
      "shard_fs ''042-of-900.tfrecord'' [sample_record, short_record]"
      "[''in'', ''042-of-900.tfrecord'']" "[sample_record, short_record]" 1 sample_ops 42 "[''out'']"]
  by (simp add: rooms_ring_camera_info sample_index sample_name convert_sample
      read_tfrecords_def node_at_def shard_fs_def)

text \<open>
  Claim C8. If one of the records \<open>convert_record\<close> processes does not match the declared
  shapes, the call raises the decoding error of a processed record and leaves the file
  system as it was: no output file is created or changed. When the records before the
  first such record convert without error, the error raised is the one of the shape
  check, InvalidArgumentError.
\<close>

theorem mismatched_record_aborts:
  assumes "map_of DATASETS ds = Some info"
    and "read_tfrecords fs p = Inr rs"
    and "r \<in> set (tf_take bs rs)"
    and "\<not> matches_declared_shapes info r"
  shows "(\<exists>e' r'. r' \<in> set (tf_take bs rs) \<and> convert_raw_to_gzip ops info r' = Inl e' \<and>
            convert_record ops p ds sd bs fs = (Inl e', fs)) \<and>
         (list_all (\<lambda>x. \<not> isl (convert_raw_to_gzip ops info x))
              (takeWhile (matches_declared_shapes info) (tf_take bs rs)) \<longrightarrow>
            convert_record ops p ds sd bs fs = (Inl InvalidArgumentError, fs))"
proof
  show "\<exists>e' r'. r' \<in> set (tf_take bs rs) \<and> convert_raw_to_gzip ops info r' = Inl e' \<and>
            convert_record ops p ds sd bs fs = (Inl e', fs)"
    by (rule failed_record_aborts[OF assms(1,2,3) convert_rejects_mismatch[OF assms(4)]])
next
  show "list_all (\<lambda>x. \<not> isl (convert_raw_to_gzip ops info x))
              (takeWhile (matches_declared_shapes info) (tf_take bs rs)) \<longrightarrow>
            convert_record ops p ds sd bs fs = (Inl InvalidArgumentError, fs)"
  proof
    let ?xs = "tf_take bs rs"
    let ?pre = "takeWhile (matches_declared_shapes info) ?xs"
    assume ok: "list_all (\<lambda>x. \<not> isl (convert_raw_to_gzip ops info x)) ?pre"
    have "\<exists>x \<in> set ?xs. \<not> matches_declared_shapes info x" using assms(3,4) by blast
    then have "dropWhile (matches_declared_shapes info) ?xs \<noteq> []" by simp
    then obtain x post where d: "dropWhile (matches_declared_shapes info) ?xs = x # post"
      by (cases "dropWhile (matches_declared_shapes info) ?xs") auto
    then have "\<not> matches_declared_shapes info x" by (metis hd_dropWhile list.sel(1) list.distinct(1))
    then have fx: "convert_raw_to_gzip ops info x = Inl InvalidArgumentError"
      by (rule convert_rejects_mismatch)
    have "?xs = ?pre @ x # post" using d by (metis takeWhile_dropWhile_id)
    then have me: "map_err (convert_raw_to_gzip ops info) ?xs = Inl InvalidArgumentError"
      using map_err_first_failure[OF ok fx, of post] by simp
    have "bs \<noteq> 0" using assms(3) by (auto simp: tf_take_def)
    then have rd: "(if bs = 0 then Inr [] else read_tfrecords fs p) = Inr rs"
      using assms(2) by simp
    show "convert_record ops p ds sd bs fs = (Inl InvalidArgumentError, fs)"
      unfolding convert_record_def assms(1) option.case rd sum.case me ..
  qed
qed

theorem mismatched_record_aborts_witness:
  "convert_record sample_ops [''in'', ''042-of-900.tfrecord''] ''rooms_ring_camera'' [''out''] 16
        (shard_fs ''042-of-900.tfrecord'' [sample_record, short_record]) =
      (Inl InvalidArgumentError, shard_fs ''042-of-900.tfrecord'' [sample_record, short_record])"
proof -
  let ?info = "\<lparr>basepath = ''rooms_ring_camera'', train_size = 2160, test_size = 240,
           frame_size = 64, sequence_size = 10\<rparr>"
  let ?fs = "shard_fs ''042-of-900.tfrecord'' [sample_record, short_record]"
  have rd: "read_tfrecords ?fs [''in'', ''042-of-900.tfrecord''] = Inr [sample_record, short_record]"
    by (simp add: read_tfrecords_def node_at_def shard_fs_def)
  have mem: "short_record \<in> set (tf_take 16 [sample_record, short_record])"
    by (simp add: tf_take_def)
  have bad: "\<not> matches_declared_shapes ?info short_record"
    by (simp add: matches_declared_shapes_def short_record_def)
  have good: "matches_declared_shapes ?info sample_record"
    by (simp add: matches_declared_shapes_def sample_record_def)
  have pre: "list_all (\<lambda>x. \<not> isl (convert_raw_to_gzip sample_ops ?info x))
      (takeWhile (matches_declared_shapes ?info) (tf_take 16 [sample_record, short_record]))"
    using good bad by (simp add: tf_take_def convert_sample)
  from mismatched_record_aborts[OF rooms_ring_camera_info rd mem bad, of sample_ops "[''out'']"] pre
  show ?thesis by blast
qed

section \<open>The conversion driver\<close>

text \<open>
  Claim C9. When nothing exists at the input directory resolved from the dataset and the
  mode, \<open>main\<close> raises an error. Otherwise (the dataset is in the catalogue, the
  output directory could be made, and \<open>--first-n\<close> is a count \<open>n \<ge> 0\<close>) it hands to the
  pool one \<open>convert_record\<close> invocation per selected file, and the selected files are
  the first \<open>n\<close> of the list \<open>all\<close>, the shard files of the input directory in strictly
  increasing lexicographic order of their paths.
\<close>

theorem driver_selection:
  "(\<not> path_exists fs (tf_dir_of a) \<longrightarrow> isl (fst (main a fs))) \<and>
   (map_of DATASETS (arg_dataset a) = Some info \<and>
    mkdir_parents fs (torch_dir_of a) = Inr fs1 \<and>
    path_exists fs (tf_dir_of a) \<and> arg_first_n a = Some n \<and> 0 \<le> n \<longrightarrow>
      (\<exists>all. sorted_wrt (<) all \<and> set all = shard_files fs (tf_dir_of a) \<and>
         main a fs =
           (Inr (map (\<lambda>p. (p, arg_dataset a, torch_dir_of a, arg_batch_size a))
                     (take (nat n) all)), fs1)))"
proof (intro conjI impI)
  assume no: "\<not> path_exists fs (tf_dir_of a)"
  show "isl (fst (main a fs))"
  proof (cases "map_of DATASETS (arg_dataset a)")
    case None
    then show ?thesis by (simp add: main_def)
  next
    case (Some info')
    show ?thesis
    proof (cases "mkdir_parents fs (torch_dir_of a)")
      case (Inl e)
      with Some show ?thesis by (simp add: main_def)
    next
      case (Inr fs')
      from mkdir_keeps_node(2)[OF Some Inr] no have "\<not> path_exists fs' (tf_dir_of a)" by simp
      with Some Inr show ?thesis by (simp add: main_def)
    qed
  qed
next
  assume h: "map_of DATASETS (arg_dataset a) = Some info \<and>
    mkdir_parents fs (torch_dir_of a) = Inr fs1 \<and>
    path_exists fs (tf_dir_of a) \<and> arg_first_n a = Some n \<and> 0 \<le> n"
  then have ds: "map_of DATASETS (arg_dataset a) = Some info"
    and mk: "mkdir_parents fs (torch_dir_of a) = Inr fs1"
    and ex: "path_exists fs (tf_dir_of a)" and fn: "arg_first_n a = Some n" and n: "0 \<le> n"
    by simp_all
  let ?all = "sort (glob_suffix fs1 (tf_dir_of a) ''.tfrecord'')"
  have ex1: "path_exists fs1 (tf_dir_of a)"
    using mkdir_keeps_node(2)[OF ds mk] ex by simp
  have "main a fs =
      (Inr (map (\<lambda>p. (p, arg_dataset a, torch_dir_of a, arg_batch_size a)) (take (nat n) ?all)), fs1)"
    using n by (simp add: main_def ds mk ex1 fn py_slice_to_def Let_def)
  moreover have "sorted_wrt (<) ?all \<and> set ?all = shard_files fs (tf_dir_of a)"
    using sort_glob[of fs1 "tf_dir_of a"] mkdir_keeps_node(3)[OF ds mk] by simp
  ultimately show "\<exists>all. sorted_wrt (<) all \<and> set all = shard_files fs (tf_dir_of a) \<and>
         main a fs =
           (Inr (map (\<lambda>p. (p, arg_dataset a, torch_dir_of a, arg_batch_size a))
                     (take (nat n) all)), fs1)"
    by blast
qed

theorem driver_selection_witness:
  "isl (fst (main driver_args [])) \<and>
   (\<exists>all. sorted_wrt (<) all \<and> set all = shard_files driver_fs [''data'', ''jaco'', ''train''] \<and>
      main driver_args driver_fs =
        (Inr (map (\<lambda>p. (p, ''jaco'', [''data'', ''jaco_torch'', ''train''], 16)) (take 1 all)),
         driver_fs1))"
proof
  show "isl (fst (main driver_args []))"
    using driver_selection[of "[]" driver_args]
    by (simp add: driver_paths path_exists_def node_at_def)
  show "\<exists>all. sorted_wrt (<) all \<and> set all = shard_files driver_fs [''data'', ''jaco'', ''train''] \<and>
      main driver_args driver_fs =
        (Inr (map (\<lambda>p. (p, ''jaco'', [''data'', ''jaco_torch'', ''train''], 16)) (take 1 all)),
         driver_fs1)"
    using driver_selection[of driver_fs driver_args
        "\<lparr>basepath = ''jaco'', train_size = 3600, test_size = 400,
           frame_size = 64, sequence_size = 11\<rparr>" driver_fs1 1] driver_mkdir jaco_info
    by (simp add: driver_paths) (simp add: driver_args_def driver_fs_def path_exists_def node_at_def)
qed

section \<open>The scene loader\<close>

text \<open>
  Claim C10. Let the converter run over input shards whose parsed ordinals are exactly
  1..N, into an output directory that was empty. Then \<open>__len__\<close> of the dataset rooted
  at that directory is \<open>N\<close> (it counts the entries of the directory), and
  \<open>__getitem__(0)\<close> raises FileNotFoundError: the files are named by the ordinals, and
  none is \<open>0.pt.gz\<close>.
\<close>

theorem loader_index_zero_missing:
  assumes out: "node_at fs sd = Some Dir"
    and empty: "children fs sd = []"
    and names: "list_all2 (\<lambda>p n. parse_base_name p = Inr (int n)) ps ns"
    and ords: "set ns = {1..N}"
    and run: "convert_records ops ps ds sd bs fs = (Inr (), fs')"
  shows "len_dataset fs' \<lparr>root_dir = sd\<rparr> = Inr N \<and>
         getitem fs' \<lparr>root_dir = sd\<rparr> 0 = Inl FileNotFoundError"
proof -
  let ?name = "\<lambda>n. str_of_nat n @ ''.pt.gz''"
  let ?out = "\<lambda>n. sd @ [?name n]"
  from convert_records_nodes[OF run names]
  have keep: "\<And>q. q \<notin> ?out ` set ns \<Longrightarrow> map_of fs' q = map_of fs q"
    and made: "\<And>n. n \<in> set ns \<Longrightarrow> map_of fs' (?out n) \<noteq> None"
    by blast+
  have none: "map_of fs (sd @ [x]) = None" for x
  proof -
    have "x \<notin> set (children fs sd)" by (simp add: empty)
    then show ?thesis by (simp add: children_set)
  qed
  have ch: "set (children fs' sd) = ?name ` {1..N}"
  proof (rule set_eqI)
    fix x
    show "x \<in> set (children fs' sd) \<longleftrightarrow> x \<in> ?name ` {1..N}"
    proof
      assume "x \<in> set (children fs' sd)"
      then have x: "map_of fs' (sd @ [x]) \<noteq> None" by (simp add: children_set)
      have "sd @ [x] \<in> ?out ` set ns"
      proof (rule ccontr)
        assume "sd @ [x] \<notin> ?out ` set ns"
        from keep[OF this] none[of x] x show False by simp
      qed
      then show "x \<in> ?name ` {1..N}" by (auto simp: ords)
    next
      assume "x \<in> ?name ` {1..N}"
      then obtain n where "n \<in> set ns" "x = ?name n" by (auto simp: ords)
      with made[of n] show "x \<in> set (children fs' sd)" by (simp add: children_set)
    qed
  qed
  have "inj_on ?name {1..N}"
    by (rule inj_onI) (simp add: str_of_nat_inj)
  then have "card (?name ` {1..N}) = N" by (simp add: card_image)
  then have len: "length (children fs' sd) = N"
    using distinct_card[OF distinct_children, of fs' sd] ch by simp
  have dir: "node_at fs' sd = Some Dir"
  proof (cases "sd = []")
    case True
    then show ?thesis by (simp add: node_at_def)
  next
    case False
    have "sd \<notin> ?out ` set ns" by auto
    from keep[OF this] out False show ?thesis by (simp add: node_at_def)
  qed
  have l: "len_dataset fs' \<lparr>root_dir = sd\<rparr> = Inr N"
    by (simp add: len_dataset_def iterdir_def dir len)
  have "?out 0 \<notin> ?out ` set ns"
    by (auto simp: ords dest: str_of_nat_inj)
  from keep[OF this] none[of "?name 0"] have "node_at fs' (?out 0) = None"
    by (simp add: node_at_def)
  then have "load_shard fs' (root_dir \<lparr>root_dir = sd\<rparr> @ [str_of_int 0 @ ''.pt.gz'']) =
      Inl FileNotFoundError"
    using str_of_int_nat[of 0] dir by (simp add: load_shard_def)
  then have g: "getitem fs' \<lparr>root_dir = sd\<rparr> 0 = Inl FileNotFoundError"
    by (simp add: getitem_def)
  from l g show ?thesis ..
qed

theorem loader_index_zero_missing_witness:
  "len_dataset (([''out'', ''1.pt.gz''], File (Shard [sample_scene])) #
        shard_fs ''1-of-1.tfrecord'' [sample_record]) \<lparr>root_dir = [''out'']\<rparr> = Inr 1 \<and>
   getitem (([''out'', ''1.pt.gz''], File (Shard [sample_scene])) #
        shard_fs ''1-of-1.tfrecord'' [sample_record]) \<lparr>root_dir = [''out'']\<rparr> 0 =
     Inl FileNotFoundError"
proof -
  have run: "convert_records sample_ops [[''in'', ''1-of-1.tfrecord'']] ''rooms_ring_camera''
      [''out''] 16 (shard_fs ''1-of-1.tfrecord'' [sample_record]) =
     (Inr (), ([''out'', ''1.pt.gz''], File (Shard [sample_scene])) #
        shard_fs ''1-of-1.tfrecord'' [sample_record])"
    using convert_sample_shard[of "''1-of-1.tfrecord''" 1 16 "[sample_record]"]
    by (simp add: sample_index sample_name tf_take_def)
  have out: "node_at (shard_fs ''1-of-1.tfrecord'' [sample_record]) [''out''] = Some Dir"
    by (simp add: node_at_def shard_fs_def)
  have names: "list_all2 (\<lambda>p n. parse_base_name p = Inr (int n)) [[''in'', ''1-of-1.tfrecord'']] [1]"
    by (simp add: sample_index)
  have ords: "set [1 :: nat] = {1..1}" by simp
  from loader_index_zero_missing[OF out shard_fs_out_empty names ords run]
  show ?thesis .
qed

end
